theory Spec2Isabelle
  imports Main
begin

section \<open>JavaScript values\<close>

text \<open>
  The payloads of \<^verbatim>\<open>st_veronica_foundation.js\<close> are untyped: a response body, an
  envelope field, a notification message can each be any JSON value, and a missing
  property reads as \<^verbatim>\<open>undefined\<close>. Numbers are restricted to integers. An object
  lists its own properties in enumeration order.
\<close>

datatype jsval =
    JUndefined
  | JNull
  | JBool bool
  | JNum int
  | JStr string
  | JArr "jsval list"
  | JObj "(string \<times> jsval) list"

text \<open>The test that \<^verbatim>\<open>if (v)\<close>, \<^verbatim>\<open>!v\<close> and \<^verbatim>\<open>v || w\<close> apply.\<close>

fun truthy :: "jsval \<Rightarrow> bool" where
  "truthy JUndefined = False"
| "truthy JNull = False"
| "truthy (JBool b) = b"
| "truthy (JNum n) = (n \<noteq> 0)"
| "truthy (JStr s) = (s \<noteq> [])"
| "truthy (JArr xs) = True"
| "truthy (JObj kvs) = True"

definition js_or :: "jsval \<Rightarrow> jsval \<Rightarrow> jsval" where
  "js_or a b = (if truthy a then a else b)"

text \<open>
  What the script can throw: a TypeError of the language, and the error jQuery raises
  for a selector it cannot read.
\<close>

datatype exn = TypeError | SelectorError

text \<open>
  Reading a property \<^verbatim>\<open>v.k\<close>: a TypeError on \<^verbatim>\<open>null\<close> and \<^verbatim>\<open>undefined\<close>, the own
  property of an object, the length of an array or a string, \<^verbatim>\<open>undefined\<close> otherwise.
\<close>

fun get_prop :: "string \<Rightarrow> jsval \<Rightarrow> exn + jsval" where
  "get_prop k JUndefined = Inl TypeError"
| "get_prop k JNull = Inl TypeError"
| "get_prop k (JObj kvs) = Inr (case map_of kvs k of None \<Rightarrow> JUndefined | Some v \<Rightarrow> v)"
| "get_prop k (JArr xs) = Inr (if k = ''length'' then JNum (int (length xs)) else JUndefined)"
| "get_prop k (JStr s) = Inr (if k = ''length'' then JNum (int (length s)) else JUndefined)"
| "get_prop k v = Inr JUndefined"

text \<open>String conversion, as a template literal and \<^verbatim>\<open>textContent\<close> perform it.\<close>

fun show_nat :: "nat \<Rightarrow> string" where
  "show_nat n =
     (if n < 10 then [''0123456789'' ! n]
      else show_nat (n div 10) @ [''0123456789'' ! (n mod 10)])"

declare show_nat.simps [simp del]

definition show_int :: "int \<Rightarrow> string" where
  "show_int i = (if i < 0 then CHR ''-'' # show_nat (nat (- i)) else show_nat (nat i))"

fun join_comma :: "string list \<Rightarrow> string" where
  "join_comma [] = []"
| "join_comma [s] = s"
| "join_comma (s # t # ss) = s @ '','' @ join_comma (t # ss)"

fun to_text :: "jsval \<Rightarrow> string" where
  "to_text JUndefined = ''undefined''"
| "to_text JNull = ''null''"
| "to_text (JBool b) = (if b then ''true'' else ''false'')"
| "to_text (JNum n) = show_int n"
| "to_text (JStr s) = s"
| "to_text (JArr xs) =
     join_comma (map (\<lambda>x. if x = JNull \<or> x = JUndefined then [] else to_text x) xs)"
| "to_text (JObj kvs) = ''[object Object]''"

section \<open>The document\<close>

text \<open>
  The document is a forest of nodes. An element carries its tag, its \<^verbatim>\<open>id\<close> and
  \<^verbatim>\<open>name\<close> attributes, the names of its other attributes, its class list and its
  children. \<open>Raw v\<close> is markup handed to jQuery (\<^verbatim>\<open>.html(v)\<close>, an inserted fragment with
  markup of its own) that the model does not parse. Tag names are in lower case, and an \<^verbatim>\<open>id\<close> is
  taken to name one element.
\<close>

datatype node =
    Text string
  | Raw jsval
  | Elem (tag: string) (eid: "string option") (ename: "string option")
      (eattrs: "string list") (classes: "string list") (kids: "node list")

fun is_elem :: "node \<Rightarrow> bool" where
  "is_elem (Elem t i n a c ks) = True"
| "is_elem x = False"

fun has_class :: "string \<Rightarrow> node \<Rightarrow> bool" where
  "has_class c (Elem t i n a cs ks) = (c \<in> set cs)"
| "has_class c x = False"

fun has_id :: "string \<Rightarrow> node \<Rightarrow> bool" where
  "has_id s (Elem t i n a cs ks) = (i = Some s)"
| "has_id s x = False"

fun has_name :: "string \<Rightarrow> node \<Rightarrow> bool" where
  "has_name s (Elem t i n a cs ks) = (n = Some s)"
| "has_name s x = False"

fun has_tag :: "string \<Rightarrow> node \<Rightarrow> bool" where
  "has_tag s (Elem t i n a cs ks) = (t = s)"
| "has_tag s x = False"

fun has_attr :: "string \<Rightarrow> node \<Rightarrow> bool" where
  "has_attr s (Elem t i n a cs ks) = (s \<in> set a)"
| "has_attr s x = False"

text \<open>
  A selector given by a caller (\<^verbatim>\<open>options.formSelector\<close>, \<^verbatim>\<open>options.containerSelector\<close>)
  is a compound of simple selectors, decided on the element alone:
  \<^verbatim>\<open>form[data-json-form]\<close> is \<open>[STag ''form'', SAttr ''data-json-form'']\<close>.
\<close>

datatype simple = STag string | SId string | SClass string | SAttr string

type_synonym selector = "simple list"

fun match1 :: "node \<Rightarrow> simple \<Rightarrow> bool" where
  "match1 e (STag s) = has_tag s e"
| "match1 e (SId s) = has_id s e"
| "match1 e (SClass s) = has_class s e"
| "match1 e (SAttr s) = has_attr s e"

definition matches :: "selector \<Rightarrow> node \<Rightarrow> bool" where
  "matches sel e = (is_elem e \<and> list_all (match1 e) sel)"

text \<open>\<^verbatim>\<open>.addClass(c)\<close> and \<^verbatim>\<open>.removeClass(c)\<close> on one element.\<close>

fun addClass :: "string \<Rightarrow> node \<Rightarrow> node" where
  "addClass c (Elem t i n a cs ks) = Elem t i n a (if c \<in> set cs then cs else cs @ [c]) ks"
| "addClass c x = x"

fun removeClass :: "string \<Rightarrow> node \<Rightarrow> node" where
  "removeClass c (Elem t i n a cs ks) = Elem t i n a (filter (\<lambda>d. d \<noteq> c) cs) ks"
| "removeClass c x = x"

fun set_kids :: "node list \<Rightarrow> node \<Rightarrow> node" where
  "set_kids new (Elem t i n a cs ks) = Elem t i n a cs new"
| "set_kids new x = x"

text \<open>
  \<^verbatim>\<open>.text(v)\<close>: with \<^verbatim>\<open>undefined\<close> jQuery reads instead of writing and nothing changes;
  otherwise the children are replaced by the text of \<open>v\<close> (\<^verbatim>\<open>null\<close> gives the empty text).
\<close>

definition jq_text :: "jsval \<Rightarrow> node \<Rightarrow> node" where
  "jq_text v e =
     (if v = JUndefined then e
      else if v = JNull \<or> to_text v = [] then set_kids [] e
      else set_kids [Text (to_text v)] e)"

definition jq_html :: "jsval \<Rightarrow> node \<Rightarrow> node" where
  "jq_html v e = set_kids [Raw v] e"

text \<open>
  One traversal serves every jQuery call that changes the document. The elements
  selected are those that satisfy \<open>P\<close> and, unless \<open>ins\<close> holds from the start, lie below an
  element that satisfies \<open>A\<close>; each is replaced by the nodes \<open>h\<close> gives for it (itself
  changed, itself and a new sibling, or nothing). Selection looks at the elements as they
  were before the call, as jQuery selects before it changes anything.
\<close>

fun rewrite :: "(node \<Rightarrow> bool) \<Rightarrow> (node \<Rightarrow> bool) \<Rightarrow> (node \<Rightarrow> node list) \<Rightarrow> bool \<Rightarrow> node \<Rightarrow> node list" where
  "rewrite A P h ins (Elem t i n a cs ks) =
     (let ks' = concat (map (rewrite A P h (ins \<or> A (Elem t i n a cs ks))) ks)
      in if ins \<and> P (Elem t i n a cs ks) then h (Elem t i n a cs ks') else [Elem t i n a cs ks'])"
| "rewrite A P h ins x = [x]"

definition jq_each :: "(node \<Rightarrow> bool) \<Rightarrow> (node \<Rightarrow> node list) \<Rightarrow> node list \<Rightarrow> node list" where
  "jq_each P h d = concat (map (rewrite (\<lambda>e. False) P h True) d)"

definition jq_each_under :: "(node \<Rightarrow> bool) \<Rightarrow> (node \<Rightarrow> bool) \<Rightarrow> (node \<Rightarrow> node list) \<Rightarrow> node list \<Rightarrow> node list" where
  "jq_each_under A P h d = concat (map (rewrite A P h False) d)"

text \<open>The elements a selector finds, in document order.\<close>

fun select :: "(node \<Rightarrow> bool) \<Rightarrow> (node \<Rightarrow> bool) \<Rightarrow> bool \<Rightarrow> node \<Rightarrow> node list" where
  "select A P ins (Elem t i n a cs ks) =
     (if ins \<and> P (Elem t i n a cs ks) then [Elem t i n a cs ks] else [])
     @ concat (map (select A P (ins \<or> A (Elem t i n a cs ks))) ks)"
| "select A P ins x = []"

definition jq :: "(node \<Rightarrow> bool) \<Rightarrow> node list \<Rightarrow> node list" where
  "jq P d = concat (map (select (\<lambda>e. False) P True) d)"

definition jq_under :: "(node \<Rightarrow> bool) \<Rightarrow> (node \<Rightarrow> bool) \<Rightarrow> node list \<Rightarrow> node list" where
  "jq_under A P d = concat (map (select A P False) d)"

text \<open>
  The same change made to elements given by their positions. A position is the list of
  child indices that leads from the top of the document to the element; \<open>p\<close> is the
  position of the node at hand and \<open>j\<close> the index of the first node of the sibling list
  at hand.
\<close>

fun rewrite_at :: "nat list list \<Rightarrow> (node \<Rightarrow> node list) \<Rightarrow> nat list \<Rightarrow> node \<Rightarrow> node list"
  and rewrite_kids_at :: "nat list list \<Rightarrow> (node \<Rightarrow> node list) \<Rightarrow> nat list \<Rightarrow> nat \<Rightarrow> node list \<Rightarrow> node list"
where
  "rewrite_at found h p (Elem t i n a cs ks) =
     (let ks' = rewrite_kids_at found h p 0 ks
      in if p \<in> set found then h (Elem t i n a cs ks') else [Elem t i n a cs ks'])"
| "rewrite_at found h p (Text s) = [Text s]"
| "rewrite_at found h p (Raw v) = [Raw v]"
| "rewrite_kids_at found h p j [] = []"
| "rewrite_kids_at found h p j (x # xs) =
     rewrite_at found h (p @ [j]) x @ rewrite_kids_at found h p (Suc j) xs"

definition jq_each_at :: "nat list list \<Rightarrow> (node \<Rightarrow> node list) \<Rightarrow> node list \<Rightarrow> node list" where
  "jq_each_at found h d = rewrite_kids_at found h [] 0 d"

section \<open>The page and what happens on it\<close>

record xhr =
  status :: int
  responseText :: "string option"

datatype mechanism = ToolkitToast nat | FadeFallback nat

datatype action =
    GoTo jsval
  | SwapContent jsval
  | SwapResults "selector option" string
  | InitScrollAnimations

text \<open>
  The trace lists, in program order, what the script did beyond changing the document:
  \<^item> \<open>Notification m t how\<close>: \<^verbatim>\<open>showNotification(m, t)\<close> ran and showed the toast by \<open>how\<close>;
  \<^item> \<open>Location v\<close>: \<^verbatim>\<open>window.location.href = v\<close>;
  \<^item> \<open>After ms act\<close>: an animation or timer of \<open>ms\<close> milliseconds was started whose
    callback does \<open>act\<close>;
  \<^item> \<open>AjaxSent url method dataType\<close>: \<^verbatim>\<open>$.ajax\<close> sent a request;
  \<^item> \<open>JsonProcessed\<close>, \<open>JsonRequestFailed\<close>: the two custom events triggered on the document;
  \<^item> \<open>FormReset\<close>: \<^verbatim>\<open>reset()\<close> was called on a form;
  \<^item> \<open>ScrollTo e margin ms\<close>: the page scrolls to \<open>margin\<close> pixels above element \<open>e\<close>.
  Console output is not part of the model.
\<close>

datatype effect =
    Notification jsval jsval mechanism
  | Location jsval
  | After nat action
  | AjaxSent string string string
  | JsonProcessed jsval
  | JsonRequestFailed int string string
  | FormReset node
  | ScrollTo node nat nat

record page =
  dom :: "node list"
  ajaxCache :: "string \<Rightarrow> jsval option"
  trace :: "effect list"

text \<open>
  What the script finds in its host: the reduced-motion media query (read once when the
  script loads), whether \<^verbatim>\<open>bootstrap.Toast\<close> is defined, \<^verbatim>\<open>JSON.parse\<close> (\<open>None\<close> where
  it throws), and what jQuery selects in a document for the selector text
  \<^verbatim>\<open>`${formSelector} [name="${field}"]`\<close> where the model does not read that text itself
  (\<open>fieldsFound formSelector field d\<close>: \<open>None\<close> where jQuery raises its syntax error, else
  the positions of the elements selected).
\<close>

record env =
  prefersReducedMotion :: bool
  bootstrapToast :: bool
  JSON_parse :: "string \<Rightarrow> jsval option"
  fieldsFound :: "selector option \<Rightarrow> string \<Rightarrow> node list \<Rightarrow> nat list list option"

definition emit :: "effect \<Rightarrow> page \<Rightarrow> page" where
  "emit e pg = pg\<lparr>trace := trace pg @ [e]\<rparr>"

section \<open>Notification Emitter\<close>

definition toastHTML :: node where
  "toastHTML =
     Elem ''div'' (Some ''notification-toast'') None [''role'', ''aria-live'', ''aria-atomic'']
       [''toast'']
       [Elem ''div'' None None [] [''toast-body'']
          [Elem ''span'' None None [] [''message''] []]]"

text \<open>\<^verbatim>\<open>$('body').append(html)\<close> on one element.\<close>

fun append_node :: "node \<Rightarrow> node \<Rightarrow> node list" where
  "append_node new (Elem t i n a cs ks) = [Elem t i n a cs (ks @ [new])]"
| "append_node new x = [x]"

text \<open>
  How the toast is shown: by \<^verbatim>\<open>new bootstrap.Toast(el, { delay: 3000 }).show()\<close> where the
  toolkit is loaded, by \<^verbatim>\<open>fadeIn().delay(3000).fadeOut()\<close> otherwise.
\<close>

definition toastMechanism :: "env \<Rightarrow> mechanism" where
  "toastMechanism ev = (if bootstrapToast ev then ToolkitToast 3000 else FadeFallback 3000)"

text \<open>
  \<^verbatim>\<open>showNotification(message, type = 'info')\<close>. The toast is created on first use, at the
  end of the body (the white space of the template is left out). The statement after
  the text is written is \<^verbatim>\<open>$toast.remove\<close> followed by a comment that swallows the rest
  of the line: a property is read, nothing is called, and the class list of the toast
  stays as it was.
\<close>

definition showNotification :: "env \<Rightarrow> jsval \<Rightarrow> jsval \<Rightarrow> page \<Rightarrow> page" where
  "showNotification ev message type pg =
     (let ty = (if type = JUndefined then JStr ''info'' else type);
          d1 = (if jq (has_id ''notification-toast'') (dom pg) = []
                then jq_each (has_tag ''body'') (append_node toastHTML) (dom pg)
                else dom pg);
          d2 = jq_each_under (has_id ''notification-toast'') (has_class ''message'')
                 (\<lambda>e. [jq_text message e]) d1
      in emit (Notification message ty (toastMechanism ev)) (pg\<lparr>dom := d2\<rparr>))"

text \<open>
  \<^verbatim>\<open>announceToScreenReader(message)\<close>: the live region is created on first use and its
  text rewritten.
\<close>

definition srRegion :: node where
  "srRegion = Elem ''div'' (Some ''sr-announcement'') None [''aria-live''] [''sr-only''] []"

definition announceToScreenReader :: "jsval \<Rightarrow> page \<Rightarrow> page" where
  "announceToScreenReader message pg =
     (let d1 = (if jq (has_id ''sr-announcement'') (dom pg) = []
                then jq_each (has_tag ''body'') (append_node srRegion) (dom pg)
                else dom pg)
      in pg\<lparr>dom := jq_each (has_id ''sr-announcement'') (\<lambda>e. [jq_text message e]) d1\<rparr>)"

section \<open>Handlers that may throw\<close>

text \<open>
  A handler either runs to its end or throws; either way the page keeps what was done
  up to that point.
\<close>

datatype 'a outcome = Done 'a page | Threw exn page

definition andThen :: "'a outcome \<Rightarrow> ('a \<Rightarrow> page \<Rightarrow> 'b outcome) \<Rightarrow> 'b outcome" where
  "andThen r f = (case r of Done x pg \<Rightarrow> f x pg | Threw e pg \<Rightarrow> Threw e pg)"

definition read :: "string \<Rightarrow> jsval \<Rightarrow> page \<Rightarrow> jsval outcome" where
  "read k v pg = (case get_prop k v of Inl e \<Rightarrow> Threw e pg | Inr x \<Rightarrow> Done x pg)"

text \<open>
  The options object of \<^verbatim>\<open>sendJsonRequest\<close> and of the handlers: the keys the script reads
  (an absent selector or response type is \<open>None\<close>, an absent \<^verbatim>\<open>handleResponse\<close> is
  \<^verbatim>\<open>undefined\<close>), and \<open>beforeSend\<close>. \<^verbatim>\<open>$.extend({}, defaultOptions, options)\<close> lets the keys
  of \<open>options\<close> replace the request's defaults: \<open>beforeSend\<close>, when given, is the caller's
  hook and runs instead of the default one.
\<close>

record options =
  formSelector :: "selector option"
  containerSelector :: "selector option"
  responseType :: "string option"
  handleResponse :: jsval
  beforeSend :: "(page \<Rightarrow> page) option"

section \<open>DOM Presentation Helpers\<close>

text \<open>\<^verbatim>\<open>loadAjaxContent(content)\<close>.\<close>

definition loadAjaxContent :: "env \<Rightarrow> jsval \<Rightarrow> page \<Rightarrow> page" where
  "loadAjaxContent ev content pg =
     (let container = jq (has_class ''ajax-container'') (dom pg)
      in if container \<noteq> [] then
           (let pg1 = (if prefersReducedMotion ev
                       then pg\<lparr>dom := jq_each (has_class ''ajax-container'')
                                         (\<lambda>e. [jq_html content e]) (dom pg)\<rparr>
                       else pg\<lparr>trace := trace pg
                                  @ replicate (length container) (After 300 (SwapContent content))\<rparr>)
            in emit (After 100 InitScrollAnimations)
                 (announceToScreenReader (JStr ''Content loaded successfully'') pg1))
         else pg)"

text \<open>
  \<^verbatim>\<open>displayFormErrors(errors, formSelector)\<close>. The own keys of \<open>errors\<close> are visited in
  order; for an object they are its property names, which are distinct, so that
  \<^verbatim>\<open>errors[field]\<close> is the value listed with the key.
\<close>

fun own_entries :: "jsval \<Rightarrow> (string \<times> jsval) list" where
  "own_entries (JObj kvs) = kvs"
| "own_entries (JArr xs) = zip (map show_nat [0..<length xs]) xs"
| "own_entries (JStr s) = zip (map show_nat [0..<length s]) (map (\<lambda>c. JStr [c]) s)"
| "own_entries v = []"

text \<open>
  What \<^verbatim>\<open>.after(`<div class="error-message text-danger">${errorMessage}</div>`)\<close> inserts.
  jQuery parses the string. A message without \<^verbatim>\<open><\<close>, \<^verbatim>\<open>&\<close>, carriage return or NUL is
  text to the parser: the fragment is one \<^verbatim>\<open>div\<close> holding that text (\<open>errorDiv\<close>). Any other
  message can open and close elements of its own; the model does not parse it and
  inserts the whole fragment as \<open>Raw\<close> markup.
\<close>

definition plain :: "string \<Rightarrow> bool" where
  "plain s = (CHR ''<'' \<notin> set s \<and> CHR ''&'' \<notin> set s \<and> CHR 0x0D \<notin> set s \<and> CHR 0x00 \<notin> set s)"

definition errorDiv :: "jsval \<Rightarrow> node" where
  "errorDiv errorMessage =
     Elem ''div'' None None [] [''error-message'', ''text-danger'']
       (if to_text errorMessage = [] then [] else [Text (to_text errorMessage)])"

definition errorMarkup :: "jsval \<Rightarrow> string" where
  "errorMarkup errorMessage =
     ''<div class='' @ [CHR 0x22] @ ''error-message text-danger'' @ [CHR 0x22] @ ''>''
     @ to_text errorMessage @ ''</div>''"

definition errorNode :: "jsval \<Rightarrow> node" where
  "errorNode errorMessage =
     (if plain (to_text errorMessage) then errorDiv errorMessage
      else Raw (JStr (errorMarkup errorMessage)))"

text \<open>
  The selector \<^verbatim>\<open>`${formSelector} [name="${field}"]`\<close>: the elements named \<open>field\<close> below
  an element that matches \<open>formSelector\<close>. An undefined \<open>formSelector\<close> is interpolated as
  the tag name \<^verbatim>\<open>undefined\<close>. The field is interpolated between double quotes:
  \<^item> a field without double quote, backslash and NUL is read as that name (\<open>selectable\<close>);
  \<^item> a field with a double quote, but without backslash and closing bracket, ends the
    quoted value early and leaves text that cannot close the attribute test: jQuery
    raises its syntax error (\<open>rejected\<close>, as the field \<^verbatim>\<open>a"b\<close>);
  \<^item> any other field escapes characters or carries selector text of its own; what is
    selected then, or whether the selector is refused, is the host's \<open>fieldsFound\<close>.
\<close>

definition selectable :: "string \<Rightarrow> bool" where
  "selectable field =
     (CHR 0x22 \<notin> set field \<and> CHR 0x5C \<notin> set field \<and> CHR 0x00 \<notin> set field)"

definition rejected :: "string \<Rightarrow> bool" where
  "rejected field =
     (CHR 0x22 \<in> set field \<and> CHR 0x5C \<notin> set field \<and> CHR '']'' \<notin> set field)"

definition form_scope :: "selector option \<Rightarrow> node \<Rightarrow> bool" where
  "form_scope fs = (case fs of None \<Rightarrow> has_tag ''undefined'' | Some sel \<Rightarrow> matches sel)"

definition clearErrors :: "node list \<Rightarrow> node list" where
  "clearErrors d =
     jq_each (has_class ''is-invalid'') (\<lambda>e. [removeClass ''is-invalid'' e])
       (jq_each (has_class ''error-message'') (\<lambda>e. []) d)"

text \<open>
  One round of the loop over the keys: the fields selected are marked invalid and the
  message is inserted after each (\<^verbatim>\<open>if ($field.length)\<close> guards nothing: on an empty
  selection both calls do nothing). \<open>showFieldError\<close> is the round of a selectable field;
  \<open>showFieldErrorIn\<close> is the round of any field, \<open>None\<close> where it throws.
\<close>

definition markInvalid :: "jsval \<Rightarrow> node \<Rightarrow> node list" where
  "markInvalid errorMessage e = [addClass ''is-invalid'' e, errorNode errorMessage]"

definition showFieldError :: "selector option \<Rightarrow> node list \<Rightarrow> string \<times> jsval \<Rightarrow> node list" where
  "showFieldError fs d kv =
     jq_each_under (form_scope fs) (has_name (fst kv)) (markInvalid (snd kv)) d"

definition showFieldErrorIn :: "env \<Rightarrow> selector option \<Rightarrow> node list \<Rightarrow> string \<times> jsval \<Rightarrow> node list option" where
  "showFieldErrorIn ev fs d kv =
     (if selectable (fst kv) then Some (showFieldError fs d kv)
      else if rejected (fst kv) then None
      else (case fieldsFound ev fs (fst kv) d of
              None \<Rightarrow> None
            | Some found \<Rightarrow> Some (jq_each_at found (markInvalid (snd kv)) d)))"

fun showErrors :: "env \<Rightarrow> selector option \<Rightarrow> (string \<times> jsval) list \<Rightarrow> page \<Rightarrow> unit outcome" where
  "showErrors ev fs [] pg = Done () pg"
| "showErrors ev fs (kv # kvs) pg =
     (case showFieldErrorIn ev fs (dom pg) kv of
        None \<Rightarrow> Threw SelectorError pg
      | Some d \<Rightarrow> showErrors ev fs kvs (pg\<lparr>dom := d\<rparr>))"

text \<open>\<^verbatim>\<open>$(formSelector).find('.is-invalid')\<close>; \<^verbatim>\<open>$(undefined)\<close> is empty.\<close>

definition invalid_fields :: "selector option \<Rightarrow> node list \<Rightarrow> node list" where
  "invalid_fields fs d =
     (case fs of None \<Rightarrow> [] | Some sel \<Rightarrow> jq_under (matches sel) (has_class ''is-invalid'') d)"

definition scrollToFirstError :: "env \<Rightarrow> selector option \<Rightarrow> page \<Rightarrow> page" where
  "scrollToFirstError ev fs pg =
     (case invalid_fields fs (dom pg) of
        [] \<Rightarrow> pg
      | firstError # others \<Rightarrow>
          if \<not> prefersReducedMotion ev then emit (ScrollTo firstError 100 500) pg else pg)"

definition displayFormErrors :: "env \<Rightarrow> jsval \<Rightarrow> selector option \<Rightarrow> page \<Rightarrow> unit outcome" where
  "displayFormErrors ev errors fs pg =
     andThen (showErrors ev fs (own_entries errors) (pg\<lparr>dom := clearErrors (dom pg)\<rparr>))
       (\<lambda>u pg. Done () (scrollToFirstError ev fs pg))"

text \<open>\<^verbatim>\<open>displaySearchResults(results, containerSelector)\<close> and the markup it builds.\<close>

definition resultItem :: "string \<Rightarrow> string \<Rightarrow> string \<Rightarrow> string" where
  "resultItem url title excerpt =
     [CHR 0x0A] @ replicate 16 CHR '' '' @ ''<li class='' @ [CHR 0x22] @ ''search-result-item'' @ [CHR 0x22] @ ''>''
     @ [CHR 0x0A] @ replicate 20 CHR '' '' @ ''<h3><a href='' @ [CHR 0x22] @ url @ [CHR 0x22] @ ''>'' @ title @ ''</a></h3>''
     @ [CHR 0x0A] @ replicate 20 CHR '' '' @ ''<p>'' @ excerpt @ ''</p>''
     @ [CHR 0x0A] @ replicate 16 CHR '' '' @ ''</li>''
     @ [CHR 0x0A] @ replicate 12 CHR '' ''"

fun resultItems :: "jsval list \<Rightarrow> exn + string" where
  "resultItems [] = Inr []"
| "resultItems (r # rs) =
     (case get_prop ''url'' r of
        Inl e \<Rightarrow> Inl e
      | Inr url \<Rightarrow>
          (case get_prop ''title'' r of
             Inl e \<Rightarrow> Inl e
           | Inr title \<Rightarrow>
               (case get_prop ''excerpt'' r of
                  Inl e \<Rightarrow> Inl e
                | Inr excerpt \<Rightarrow>
                    (case resultItems rs of
                       Inl e \<Rightarrow> Inl e
                     | Inr html \<Rightarrow>
                         Inr (resultItem (to_text url) (to_text title) (to_text excerpt) @ html)))))"

definition showResults :: "env \<Rightarrow> selector \<Rightarrow> string \<Rightarrow> page \<Rightarrow> page" where
  "showResults ev sel html pg =
     (if prefersReducedMotion ev
      then pg\<lparr>dom := jq_each (matches sel) (\<lambda>e. [jq_html (JStr html) e]) (dom pg)\<rparr>
      else pg\<lparr>trace := trace pg
                 @ replicate (length (jq (matches sel) (dom pg))) (After 300 (SwapResults (Some sel) html))\<rparr>)"

definition displaySearchResults :: "env \<Rightarrow> jsval \<Rightarrow> selector option \<Rightarrow> page \<Rightarrow> unit outcome" where
  "displaySearchResults ev results cs pg =
     (case cs of
        None \<Rightarrow> Done () pg
      | Some sel \<Rightarrow>
          if jq (matches sel) (dom pg) = [] then Done () pg
          else andThen (read ''length'' results pg) (\<lambda>len pg.
            if len = JNum 0
            then Done () (pg\<lparr>dom := jq_each (matches sel)
                                      (\<lambda>e. [jq_html (JStr ''<p>No results found.</p>'') e]) (dom pg)\<rparr>)
            else (case results of
                    JArr rs \<Rightarrow>
                      (case resultItems rs of
                         Inl e \<Rightarrow> Threw e pg
                       | Inr items \<Rightarrow>
                           Done () (showResults ev sel
                             (''<ul class='' @ [CHR 0x22] @ ''search-results'' @ [CHR 0x22] @ ''>''
                              @ items @ ''</ul>'') pg))
                  | other \<Rightarrow> Threw TypeError pg)))"

definition updateSearchQueryDisplay :: "jsval \<Rightarrow> page \<Rightarrow> page" where
  "updateSearchQueryDisplay query pg =
     pg\<lparr>dom := jq_each (has_class ''search-query-display'') (\<lambda>e. [jq_text query e]) (dom pg)\<rparr>"

section \<open>Response Router\<close>

text \<open>\<^verbatim>\<open>processJsonData(data, options)\<close>: the fields every envelope may carry.\<close>

definition redirectTo :: "env \<Rightarrow> jsval \<Rightarrow> page \<Rightarrow> page" where
  "redirectTo ev url pg =
     (if prefersReducedMotion ev then emit (Location url) pg
      else pg\<lparr>trace := trace pg
                 @ replicate (length (jq (has_class ''content-wrapper'') (dom pg)))
                     (After 500 (GoTo url))\<rparr>)"

definition processJsonData :: "env \<Rightarrow> jsval \<Rightarrow> options \<Rightarrow> page \<Rightarrow> unit outcome" where
  "processJsonData ev data opts pg =
     andThen (read ''message'' data pg) (\<lambda>message pg.
     andThen (if truthy message
              then andThen (read ''success'' data pg) (\<lambda>success pg.
                     Done () (showNotification ev message
                                (JStr (if truthy success then ''success'' else ''error'')) pg))
              else Done () pg) (\<lambda>u pg.
     andThen (read ''redirect'' data pg) (\<lambda>redirect pg.
     andThen (read ''content'' data (if truthy redirect then redirectTo ev redirect pg else pg))
       (\<lambda>content pg.
     Done () (emit (JsonProcessed data)
                (if truthy content then loadAjaxContent ev content pg else pg))))))"

text \<open>\<^verbatim>\<open>processFormResponse(data, options)\<close>.\<close>

definition resetForm :: "selector option \<Rightarrow> page \<Rightarrow> unit outcome" where
  "resetForm fs pg =
     (case fs of
        None \<Rightarrow> Done () pg
      | Some sel \<Rightarrow>
          (case jq (matches sel) (dom pg) of
             [] \<Rightarrow> Threw TypeError pg
           | e # others \<Rightarrow> if has_tag ''form'' e then Done () (emit (FormReset e) pg)
                            else Threw TypeError pg))"

definition formSuccess :: "env \<Rightarrow> jsval \<Rightarrow> options \<Rightarrow> page \<Rightarrow> unit outcome" where
  "formSuccess ev data opts pg =
     andThen (read ''form_success'' data pg) (\<lambda>form_success pg.
     andThen (if truthy form_success
              then andThen (resetForm (formSelector opts) pg) (\<lambda>u pg.
                     Done () (showNotification ev form_success (JStr ''success'') pg))
              else Done () pg) (\<lambda>u pg.
     processJsonData ev data opts pg))"

definition processFormResponse :: "env \<Rightarrow> jsval \<Rightarrow> options \<Rightarrow> page \<Rightarrow> unit outcome" where
  "processFormResponse ev data opts pg =
     andThen (read ''form_errors'' data pg) (\<lambda>form_errors pg.
     andThen (if truthy form_errors
              then displayFormErrors ev form_errors (formSelector opts) pg
              else Done () pg) (\<lambda>u pg.
     formSuccess ev data opts pg))"

text \<open>\<^verbatim>\<open>processSearchResponse(data, options)\<close>.\<close>

definition processSearchResponse :: "env \<Rightarrow> jsval \<Rightarrow> options \<Rightarrow> page \<Rightarrow> unit outcome" where
  "processSearchResponse ev data opts pg =
     andThen (read ''search_results'' data pg) (\<lambda>search_results pg.
     andThen (if truthy search_results
              then displaySearchResults ev search_results (containerSelector opts) pg
              else Done () pg) (\<lambda>u pg.
     andThen (read ''search_query'' data pg) (\<lambda>search_query pg.
     processJsonData ev data opts
       (if truthy search_query then updateSearchQueryDisplay search_query pg else pg))))"

text \<open>
  \<^verbatim>\<open>processNotificationResponse(data, options)\<close>. \<^verbatim>\<open>forEach\<close> exists on arrays only; calling it
  on anything else is a TypeError.
\<close>

fun notifyEach :: "env \<Rightarrow> jsval list \<Rightarrow> page \<Rightarrow> unit outcome" where
  "notifyEach ev [] pg = Done () pg"
| "notifyEach ev (notification # rest) pg =
     andThen (read ''message'' notification pg) (\<lambda>message pg.
     andThen (read ''type'' notification pg) (\<lambda>type pg.
     notifyEach ev rest (showNotification ev message (js_or type (JStr ''info'')) pg)))"

definition processNotificationResponse :: "env \<Rightarrow> jsval \<Rightarrow> options \<Rightarrow> page \<Rightarrow> unit outcome" where
  "processNotificationResponse ev data opts pg =
     andThen (read ''notifications'' data pg) (\<lambda>notifications pg.
     andThen (if truthy notifications
              then (case notifications of
                      JArr ns \<Rightarrow> notifyEach ev ns pg
                    | other \<Rightarrow> Threw TypeError pg)
              else Done () pg) (\<lambda>u pg.
     processJsonData ev data opts pg))"

text \<open>
  \<^verbatim>\<open>handleJsonResponse(data, responseType = 'default', options)\<close>: the \<^verbatim>\<open>switch\<close> is \<open>route\<close>,
  the \<^verbatim>\<open>try\<close>/\<^verbatim>\<open>catch\<close> around it is \<open>handleJsonResponse\<close>.
\<close>

definition route :: "env \<Rightarrow> jsval \<Rightarrow> string \<Rightarrow> options \<Rightarrow> page \<Rightarrow> unit outcome" where
  "route ev data rtype opts pg =
     (if rtype = ''form'' then processFormResponse ev data opts pg
      else if rtype = ''search'' then processSearchResponse ev data opts pg
      else if rtype = ''notification'' then processNotificationResponse ev data opts pg
      else processJsonData ev data opts pg)"

definition handleJsonResponse :: "env \<Rightarrow> jsval \<Rightarrow> string \<Rightarrow> options \<Rightarrow> page \<Rightarrow> bool outcome" where
  "handleJsonResponse ev data rtype opts pg =
     (case route ev data rtype opts pg of
        Done u pg1 \<Rightarrow> Done True pg1
      | Threw error pg1 \<Rightarrow>
          Done False (showNotification ev (JStr ''Error processing server response'') (JStr ''error'') pg1))"

section \<open>Request Dispatcher\<close>

text \<open>
  The default \<^verbatim>\<open>beforeSend\<close> hook, and what both completion callbacks do first: the
  spinner and the body lose the loading classes and the body gains a terminal class.
\<close>

definition showLoading :: "page \<Rightarrow> page" where
  "showLoading pg =
     pg\<lparr>dom := jq_each (has_tag ''body'') (\<lambda>e. [addClass ''ajax-loading'' e])
                 (jq_each (has_class ''loading-spinner'') (\<lambda>e. [addClass ''show'' e]) (dom pg))\<rparr>"

definition finishLoading :: "string \<Rightarrow> page \<Rightarrow> page" where
  "finishLoading terminal pg =
     pg\<lparr>dom := jq_each (has_tag ''body'') (\<lambda>e. [addClass terminal (removeClass ''ajax-loading'' e)])
                 (jq_each (has_class ''loading-spinner'') (\<lambda>e. [removeClass ''show'' e]) (dom pg))\<rparr>"

text \<open>
  \<^verbatim>\<open>sendJsonRequest(url, data, method, options)\<close> up to the moment the request leaves:
  the hook runs, then the request is sent. Of the request's keys that \<open>options\<close> could
  replace, the hook is modelled; the others keep their defaults. The promise's \<^verbatim>\<open>.done\<close>
  and \<^verbatim>\<open>.fail\<close> callbacks are \<open>sendJsonRequest_done\<close> and \<open>sendJsonRequest_fail\<close>.
\<close>

definition sendJsonRequest :: "string \<Rightarrow> jsval \<Rightarrow> string \<Rightarrow> options \<Rightarrow> page \<Rightarrow> page" where
  "sendJsonRequest url data method opts pg =
     emit (AjaxSent url method ''json'')
       ((case beforeSend opts of None \<Rightarrow> showLoading | Some hook \<Rightarrow> hook) pg)"

definition responseTypeOr :: "options \<Rightarrow> string" where
  "responseTypeOr opts =
     (case responseType opts of None \<Rightarrow> ''default'' | Some t \<Rightarrow> if t = [] then ''default'' else t)"

definition sendJsonRequest_done :: "env \<Rightarrow> options \<Rightarrow> jsval \<Rightarrow> page \<Rightarrow> unit outcome" where
  "sendJsonRequest_done ev opts data pg =
     (if handleResponse opts \<noteq> JBool False
      then andThen (handleJsonResponse ev data (responseTypeOr opts) opts
                      (finishLoading ''ajax-success'' pg)) (\<lambda>handled pg. Done () pg)
      else Done () (finishLoading ''ajax-success'' pg))"

definition errorMessage :: "env \<Rightarrow> xhr \<Rightarrow> jsval" where
  "errorMessage ev x =
     (case responseText x of
        None \<Rightarrow> JStr ''Request failed''
      | Some body \<Rightarrow>
          if body = [] then JStr ''Request failed''
          else (case JSON_parse ev body of
                  None \<Rightarrow> JStr (take 100 body @ ''...'')
                | Some errorData \<Rightarrow>
                    (case get_prop ''message'' errorData of
                       Inl e \<Rightarrow> JStr (take 100 body @ ''...'')
                     | Inr message \<Rightarrow> js_or message (JStr ''Request failed''))))"

definition sendJsonRequest_fail :: "env \<Rightarrow> xhr \<Rightarrow> string \<Rightarrow> string \<Rightarrow> page \<Rightarrow> page" where
  "sendJsonRequest_fail ev x textStatus error pg =
     emit (JsonRequestFailed (status x) textStatus error)
       (showNotification ev (errorMessage ev x) (JStr ''error'') (finishLoading ''ajax-error'' pg))"

text \<open>
  \<^verbatim>\<open>ajaxPrefetch()\<close>: what it binds to an element marked \<^verbatim>\<open>data-prefetch="true"\<close>. The
  element gives the URL, the response type (\<^verbatim>\<open>'default'\<close> when absent), the handler tag
  (\<^verbatim>\<open>'default'\<close> when absent) and whether it carries the class \<^verbatim>\<open>ajax-load\<close>.
\<close>

record link =
  url :: string
  rtype :: string
  jsonHandler :: string
  ajaxLoad :: bool

text \<open>\<^verbatim>\<open>ajaxCache[url]\<close> as a condition.\<close>

definition cached :: "string \<Rightarrow> page \<Rightarrow> bool" where
  "cached u pg = (case ajaxCache pg u of None \<Rightarrow> False | Some v \<Rightarrow> truthy v)"

text \<open>The handlers are bound when the page loads, to an element with a URL not yet cached.\<close>

definition ajaxPrefetch_binds :: "link \<Rightarrow> page \<Rightarrow> bool" where
  "ajaxPrefetch_binds l pg = (url l \<noteq> [] \<and> \<not> cached (url l) pg)"

definition linkOptions :: options where
  "linkOptions = \<lparr>formSelector = None, containerSelector = None, responseType = None,
                    handleResponse = JUndefined, beforeSend = None\<rparr>"

definition fetch :: "link \<Rightarrow> page \<Rightarrow> page" where
  "fetch l pg =
     emit (AjaxSent (url l) ''GET'' (if rtype l = ''json'' then ''json'' else ''html''))
       (showLoading pg)"

definition onHover :: "link \<Rightarrow> page \<Rightarrow> page" where
  "onHover l pg = (if \<not> cached (url l) pg then fetch l pg else pg)"

definition store :: "link \<Rightarrow> jsval \<Rightarrow> page \<Rightarrow> page" where
  "store l data pg = finishLoading ''ajax-success'' (pg\<lparr>ajaxCache := (ajaxCache pg)(url l \<mapsto> data)\<rparr>)"

definition onHover_success :: "env \<Rightarrow> link \<Rightarrow> jsval \<Rightarrow> page \<Rightarrow> unit outcome" where
  "onHover_success ev l data pg =
     (if rtype l = ''json''
      then andThen (handleJsonResponse ev data (jsonHandler l) linkOptions (store l data pg))
             (\<lambda>handled pg. Done () pg)
      else Done () (store l data pg))"

definition onHover_error :: "env \<Rightarrow> link \<Rightarrow> page \<Rightarrow> page" where
  "onHover_error ev l pg =
     showNotification ev (JStr ''Failed to preload content'') (JStr ''error'')
       (finishLoading ''ajax-error'' pg)"

definition present :: "env \<Rightarrow> link \<Rightarrow> jsval \<Rightarrow> page \<Rightarrow> unit outcome" where
  "present ev l data pg =
     (if rtype l = ''json''
      then andThen (handleJsonResponse ev data (jsonHandler l) linkOptions pg)
             (\<lambda>handled pg. Done () pg)
      else Done () (loadAjaxContent ev data pg))"

definition onClick :: "env \<Rightarrow> link \<Rightarrow> page \<Rightarrow> unit outcome" where
  "onClick ev l pg =
     (if ajaxLoad l \<or> rtype l = ''json''
      then (if cached (url l) pg
            then present ev l (case ajaxCache pg (url l) of None \<Rightarrow> JUndefined | Some v \<Rightarrow> v) pg
            else Done () (fetch l pg))
      else Done () pg)"

definition onClick_success :: "env \<Rightarrow> link \<Rightarrow> jsval \<Rightarrow> page \<Rightarrow> unit outcome" where
  "onClick_success ev l data pg = present ev l data (store l data pg)"

definition onClick_error :: "env \<Rightarrow> link \<Rightarrow> page \<Rightarrow> page" where
  "onClick_error ev l pg =
     showNotification ev (JStr ''Failed to load content'') (JStr ''error'')
       (finishLoading ''ajax-error'' pg)"

text \<open>
  Every way a request of this script ends: the completion callbacks of
  \<^verbatim>\<open>sendJsonRequest\<close> and of the two requests of \<^verbatim>\<open>ajaxPrefetch\<close>.
\<close>

datatype completion =
    JsonDone options jsval
  | JsonFail xhr string string
  | HoverSuccess link jsval
  | HoverError link
  | ClickSuccess link jsval
  | ClickError link

fun complete :: "env \<Rightarrow> completion \<Rightarrow> page \<Rightarrow> unit outcome" where
  "complete ev (JsonDone opts data) pg = sendJsonRequest_done ev opts data pg"
| "complete ev (JsonFail x textStatus error) pg = Done () (sendJsonRequest_fail ev x textStatus error pg)"
| "complete ev (HoverSuccess l data) pg = onHover_success ev l data pg"
| "complete ev (HoverError l) pg = Done () (onHover_error ev l pg)"
| "complete ev (ClickSuccess l data) pg = onClick_success ev l data pg"
| "complete ev (ClickError l) pg = Done () (onClick_error ev l pg)"

fun succeeded :: "completion \<Rightarrow> bool" where
  "succeeded (JsonDone opts data) = True"
| "succeeded (HoverSuccess l data) = True"
| "succeeded (ClickSuccess l data) = True"
| "succeeded c = False"

section \<open>Properties of documents\<close>

text \<open>\<open>every Q d\<close>: in the forest \<open>d\<close>, the tag and class list of every element satisfy \<open>Q\<close>.\<close>

fun every1 :: "(string \<Rightarrow> string list \<Rightarrow> bool) \<Rightarrow> node \<Rightarrow> bool" where
  "every1 Q (Elem t i n a cs ks) = (Q t cs \<and> list_all (every1 Q) ks)"
| "every1 Q x = True"

definition every :: "(string \<Rightarrow> string list \<Rightarrow> bool) \<Rightarrow> node list \<Rightarrow> bool" where
  "every Q d = list_all (every1 Q) d"

text \<open>The loading flag is set: on the body and on every spinner.\<close>

definition loading_flag :: "string \<Rightarrow> string list \<Rightarrow> bool" where
  "loading_flag t cs =
     ((if t = ''body'' then ''ajax-loading'' \<in> set cs else True)
      \<and> (if ''loading-spinner'' \<in> set cs then ''show'' \<in> set cs else True))"

text \<open>No loading state is left: neither on the body nor on any spinner.\<close>

definition no_loading :: "string \<Rightarrow> string list \<Rightarrow> bool" where
  "no_loading t cs =
     ((if t = ''body'' then ''ajax-loading'' \<notin> set cs else True)
      \<and> (if ''loading-spinner'' \<in> set cs then ''show'' \<notin> set cs else True))"

definition body_has :: "string \<Rightarrow> string \<Rightarrow> string list \<Rightarrow> bool" where
  "body_has c t cs = (if t = ''body'' then c \<in> set cs else True)"

definition body_lacks :: "string \<Rightarrow> string \<Rightarrow> string list \<Rightarrow> bool" where
  "body_lacks c t cs = (if t = ''body'' then c \<notin> set cs else True)"


text \<open>
  \<open>stable Q\<close>: \<open>Q\<close> survives what the handlers do to class lists (the class
  \<^verbatim>\<open>is-invalid\<close> added or removed) and holds of the elements they create.
\<close>

definition stable :: "(string \<Rightarrow> string list \<Rightarrow> bool) \<Rightarrow> bool" where
  "stable Q =
     ((\<forall>t cs. Q t cs \<longrightarrow> Q t (cs @ [''is-invalid'']))
      \<and> (\<forall>t cs. Q t cs \<longrightarrow> Q t (filter (\<lambda>d. d \<noteq> ''is-invalid'') cs))
      \<and> Q ''div'' [''error-message'', ''text-danger'']
      \<and> Q ''div'' [''toast''] \<and> Q ''div'' [''toast-body''] \<and> Q ''span'' [''message'']
      \<and> Q ''div'' [''sr-only''])"

definition spinner_hidden :: "string \<Rightarrow> string list \<Rightarrow> bool" where
  "spinner_hidden t cs = (if ''loading-spinner'' \<in> set cs then ''show'' \<notin> set cs else True)"

text \<open>The terminal class a completion applies, and the other one.\<close>

definition terminal :: "completion \<Rightarrow> string" where
  "terminal c = (if succeeded c then ''ajax-success'' else ''ajax-error'')"

definition other_terminal :: "completion \<Rightarrow> string" where
  "other_terminal c = (if succeeded c then ''ajax-error'' else ''ajax-success'')"

text \<open>Effects that navigate the browser, at once or when an animation ends.\<close>

fun is_navigation :: "effect \<Rightarrow> bool" where
  "is_navigation (Location u) = True"
| "is_navigation (After ms (GoTo u)) = True"
| "is_navigation e = False"

text \<open>
  The notification an entry of \<^verbatim>\<open>notifications\<close> asks for: its message, and its type or
  \<^verbatim>\<open>info\<close>. \<open>field k v\<close> is \<^verbatim>\<open>v.k\<close> where that does not throw.
\<close>

definition field :: "string \<Rightarrow> jsval \<Rightarrow> jsval" where
  "field k v = (case get_prop k v of Inl e \<Rightarrow> JUndefined | Inr x \<Rightarrow> x)"

definition notice :: "env \<Rightarrow> jsval \<Rightarrow> effect" where
  "notice ev n =
     Notification (field ''message'' n) (js_or (field ''type'' n) (JStr ''info'')) (toastMechanism ev)"

fun is_notification :: "effect \<Rightarrow> bool" where
  "is_notification (Notification m t how) = True"
| "is_notification e = False"

text \<open>An entry whose properties can be read: any value but \<^verbatim>\<open>null\<close> and \<^verbatim>\<open>undefined\<close>.\<close>

fun readable :: "jsval \<Rightarrow> bool" where
  "readable JUndefined = False"
| "readable JNull = False"
| "readable v = True"

text \<open>
  What the specification describes for the entries of \<^verbatim>\<open>notifications\<close>, to be compared
  with the loop of the script (\<open>notifyEach\<close>): the entries are notified one after the other,
  in the order of the array, each with its message and with its type, or \<^verbatim>\<open>info\<close>.
\<close>

definition notifiedInOrder :: "env \<Rightarrow> jsval list \<Rightarrow> page \<Rightarrow> page" where
  "notifiedInOrder ev ns pg =
     foldl (\<lambda>pg n. showNotification ev (field ''message'' n)
                       (js_or (field ''type'' n) (JStr ''info'')) pg) pg ns"

text \<open>The notification of the envelope's own \<^verbatim>\<open>message\<close>, as \<^verbatim>\<open>processJsonData\<close> emits it.\<close>

definition ownNotice :: "env \<Rightarrow> jsval \<Rightarrow> effect list" where
  "ownNotice ev data =
     (if truthy (field ''message'' data)
      then [Notification (field ''message'' data)
              (JStr (if truthy (field ''success'' data) then ''success'' else ''error''))
              (toastMechanism ev)]
      else [])"

text \<open>Effects that send a request.\<close>

fun is_request :: "effect \<Rightarrow> bool" where
  "is_request (AjaxSent u m d) = True"
| "is_request e = False"

text \<open>
  What showing the errors \<open>kvs\<close> should leave. \<open>named_in kvs e\<close>: the element \<open>e\<close> is named
  by a key of \<open>kvs\<close>; \<open>message_for kvs e\<close>: the message under that key.
\<close>

fun named_in :: "(string \<times> jsval) list \<Rightarrow> node \<Rightarrow> bool" where
  "named_in kvs (Elem t i n a cs ks) =
     (case n of None \<Rightarrow> False | Some s \<Rightarrow> map_of kvs s \<noteq> None)"
| "named_in kvs x = False"





text \<open>The elements named by a key of \<open>kvs\<close> inside the form, in document order.\<close>

definition named_fields :: "selector option \<Rightarrow> (string \<times> jsval) list \<Rightarrow> node list \<Rightarrow> node list" where
  "named_fields fs kvs d =
     (case fs of None \<Rightarrow> [] | Some sel \<Rightarrow> jq_under (matches sel) (named_in kvs) d)"


text \<open>
  \<open>undisturbed tr m pg\<close>: the cache of \<open>pg\<close> is \<open>m\<close>, and the trace of \<open>pg\<close> is \<open>tr\<close> followed by
  effects none of which is a request.
\<close>

definition undisturbed :: "effect list \<Rightarrow> (string \<Rightarrow> jsval option) \<Rightarrow> page \<Rightarrow> bool" where
  "undisturbed tr m pg =
     (ajaxCache pg = m \<and> take (length tr) (trace pg) = tr
      \<and> filter is_request (drop (length tr) (trace pg)) = [])"

fun page_of :: "'a outcome \<Rightarrow> page" where
  "page_of (Done x pg) = pg"
| "page_of (Threw e pg) = pg"

fun returned :: "'a outcome \<Rightarrow> bool" where
  "returned (Done x pg) = True"
| "returned (Threw e pg) = False"

section \<open>Example pages\<close>

definition blank_page :: page where
  "blank_page = \<lparr>dom = [Elem ''body'' None None [] [] []], ajaxCache = (\<lambda>u. None), trace = []\<rparr>"

text \<open>
  A page with a spinner, two forms, a content wrapper and an AJAX container. The
  newsletter form shows an error from an earlier submission.
\<close>

definition demo_page :: page where
  "demo_page =
     \<lparr>dom =
        [Elem ''body'' None None [] []
           [Elem ''div'' None None [] [''loading-spinner''] [],
            Elem ''div'' None None [] [''content-wrapper'']
              [Elem ''form'' (Some ''contact'') None [''data-json-form''] []
                 [Elem ''input'' None (Some ''email'') [] [] [],
                  Elem ''input'' None (Some ''phone'') [] [] []],
               Elem ''form'' (Some ''newsletter'') None [] []
                 [Elem ''input'' None (Some ''address'') [] [''is-invalid''] [],
                  Elem ''div'' None None [] [''error-message'', ''text-danger'']
                    [Text ''Required'']]],
            Elem ''div'' None None [] [''ajax-container''] []]],
      ajaxCache = (\<lambda>u. None), trace = []\<rparr>"

definition plain_env :: env where
  "plain_env = \<lparr>prefersReducedMotion = False, bootstrapToast = False, JSON_parse = (\<lambda>s. None),
      fieldsFound = (\<lambda>fs field d. None)\<rparr>"

definition calm_env :: env where
  "calm_env = \<lparr>prefersReducedMotion = True, bootstrapToast = True, JSON_parse = (\<lambda>s. None),
      fieldsFound = (\<lambda>fs field d. None)\<rparr>"

text \<open>The envelope \<^verbatim>\<open>{notifications: [{message: "A"}, {message: "B", type: "warning"}]}\<close>.\<close>

definition twoEntries :: "jsval list" where
  "twoEntries = [JObj [(''message'', JStr ''A'')],
                 JObj [(''message'', JStr ''B''), (''type'', JStr ''warning'')]]"

definition twoNotices :: jsval where
  "twoNotices = JObj [(''notifications'', JArr twoEntries)]"

text \<open>
  A field name that closes the attribute test and adds a selector of its own,
  \<^verbatim>\<open>email"], [name="address\<close>, and a host whose jQuery reads the selector made from it,
  \<^verbatim>\<open>form[data-json-form] [name="email"], [name="address"]\<close>, on the cleared example page: it
  finds the \<^verbatim>\<open>email\<close> field of the contact form and the \<^verbatim>\<open>address\<close> field of the newsletter
  form.
\<close>

definition injectedField :: string where
  "injectedField = ''email'' @ [CHR 0x22] @ ''], [name='' @ [CHR 0x22] @ ''address''"

definition injecting_env :: env where
  "injecting_env =
     \<lparr>prefersReducedMotion = False, bootstrapToast = False, JSON_parse = (\<lambda>s. None),
      fieldsFound = (\<lambda>fs field d. if field = injectedField \<and> d = clearErrors (dom demo_page)
                                   then Some [[0, 1, 0, 0], [0, 1, 1, 0]] else None)\<rparr>"

text \<open>
  An error body \<^verbatim>\<open>{"message":"Email already registered"}\<close>, and a host whose
  \<^verbatim>\<open>JSON.parse\<close> is given on that body.
\<close>

definition errorBody :: string where
  "errorBody = ''{'' @ [CHR 0x22] @ ''message'' @ [CHR 0x22] @ '':'' @ [CHR 0x22]
               @ ''Email already registered'' @ [CHR 0x22] @ ''}''"

definition parsing_env :: env where
  "parsing_env =
     \<lparr>prefersReducedMotion = False, bootstrapToast = False,
      JSON_parse = (\<lambda>s. if s = errorBody
                         then Some (JObj [(''message'', JStr ''Email already registered'')])
                         else None),
      fieldsFound = (\<lambda>fs field d. None)\<rparr>"

text \<open>The options \<^verbatim>\<open>initFormSubmissions\<close> passes, and a prefetch link.\<close>

definition formOptions :: options where
  "formOptions = \<lparr>formSelector = Some [STag ''form'', SAttr ''data-json-form''],
                    containerSelector = None, responseType = Some ''form'',
                    handleResponse = JUndefined, beforeSend = None\<rparr>"

definition about_link :: link where
  "about_link = \<lparr>url = ''/about/'', rtype = ''default'', jsonHandler = ''default'', ajaxLoad = True\<rparr>"

text \<open>The class lists of the body, of the spinners and of the toast.\<close>

definition body_classes :: "page \<Rightarrow> string list list" where
  "body_classes pg = map classes (jq (has_tag ''body'') (dom pg))"

definition spinner_classes :: "page \<Rightarrow> string list list" where
  "spinner_classes pg = map classes (jq (has_class ''loading-spinner'') (dom pg))"

definition toast_classes :: "page \<Rightarrow> string list list" where
  "toast_classes pg = map classes (jq (has_id ''notification-toast'') (dom pg))"

definition toast_text :: "page \<Rightarrow> node list list" where
  "toast_text pg =
     map kids (jq_under (has_id ''notification-toast'') (has_class ''message'') (dom pg))"

section \<open>What the handlers leave alone\<close>

lemma rewrite_every:
  assumes h: "\<And>e. every1 Q e \<Longrightarrow> list_all (every1 Q) (h e)"
  shows "every1 Q x \<Longrightarrow> list_all (every1 Q) (rewrite A P h ins x)"
proof (induction x arbitrary: ins)
  case (Elem t i n a cs ks)
  have ks: "list_all (every1 Q) (concat (map (rewrite A P h b) ks))" for b
    using Elem by (auto simp: list_all_iff)
  have e': "every1 Q (Elem t i n a cs (concat (map (rewrite A P h b) ks)))" for b
    using Elem.prems ks by simp
  show ?case using h [OF e'] e' by (simp add: Let_def)
qed simp_all

lemma jq_each_every:
  assumes "\<And>e. every1 Q e \<Longrightarrow> list_all (every1 Q) (h e)" and "every Q d"
  shows "every Q (jq_each P h d)"
  using assms(2) rewrite_every [of Q h, OF assms(1)]
  by (auto simp: every_def jq_each_def list_all_iff)

lemma jq_each_under_every:
  assumes "\<And>e. every1 Q e \<Longrightarrow> list_all (every1 Q) (h e)" and "every Q d"
  shows "every Q (jq_each_under A P h d)"
  using assms(2) rewrite_every [of Q h, OF assms(1)]
  by (auto simp: every_def jq_each_under_def list_all_iff)

lemma every1_set_kids: "every1 Q e \<Longrightarrow> list_all (every1 Q) new \<Longrightarrow> every1 Q (set_kids new e)"
  by (cases e) simp_all

lemma every1_jq_text: "every1 Q e \<Longrightarrow> every1 Q (jq_text v e)"
  by (simp add: jq_text_def every1_set_kids)

lemma every1_jq_html: "every1 Q e \<Longrightarrow> every1 Q (jq_html v e)"
  by (simp add: jq_html_def every1_set_kids)

lemma every1_add_invalid: "stable Q \<Longrightarrow> every1 Q e \<Longrightarrow> every1 Q (addClass ''is-invalid'' e)"
  by (cases e) (simp_all add: stable_def)

lemma every1_remove_invalid: "stable Q \<Longrightarrow> every1 Q e \<Longrightarrow> every1 Q (removeClass ''is-invalid'' e)"
  by (cases e) (simp_all add: stable_def)

lemma every1_errorNode: "stable Q \<Longrightarrow> every1 Q (errorNode v)"
  by (simp add: errorNode_def errorDiv_def stable_def)

lemma every1_append_toast: "stable Q \<Longrightarrow> every1 Q e \<Longrightarrow> list_all (every1 Q) (append_node toastHTML e)"
  by (cases e) (simp_all add: toastHTML_def stable_def)

lemma every1_append_sr: "stable Q \<Longrightarrow> every1 Q e \<Longrightarrow> list_all (every1 Q) (append_node srRegion e)"
  by (cases e) (simp_all add: srRegion_def stable_def)

lemma showNotification_every:
  "stable Q \<Longrightarrow> every Q (dom pg) \<Longrightarrow> every Q (dom (showNotification ev m ty pg))"
  by (simp add: showNotification_def Let_def emit_def jq_each_every jq_each_under_every
        every1_append_toast every1_jq_text)

lemma announce_every:
  "stable Q \<Longrightarrow> every Q (dom pg) \<Longrightarrow> every Q (dom (announceToScreenReader m pg))"
  by (simp add: announceToScreenReader_def Let_def jq_each_every every1_append_sr every1_jq_text)

lemma loadAjaxContent_every:
  "stable Q \<Longrightarrow> every Q (dom pg) \<Longrightarrow> every Q (dom (loadAjaxContent ev c pg))"
  by (simp add: loadAjaxContent_def Let_def emit_def announce_every jq_each_every every1_jq_html)

lemma clearErrors_every: "stable Q \<Longrightarrow> every Q d \<Longrightarrow> every Q (clearErrors d)"
  by (simp add: clearErrors_def jq_each_every every1_remove_invalid)

lemma every1_markInvalid:
  "stable Q \<Longrightarrow> every1 Q e \<Longrightarrow> list_all (every1 Q) (markInvalid v e)"
  by (simp add: markInvalid_def every1_add_invalid every1_errorNode)

lemma showFieldError_every: "stable Q \<Longrightarrow> every Q d \<Longrightarrow> every Q (showFieldError fs d kv)"
  by (simp add: showFieldError_def jq_each_under_every every1_markInvalid)

lemma foldl_showFieldError_every:
  "stable Q \<Longrightarrow> every Q d \<Longrightarrow> every Q (foldl (showFieldError fs) d kvs)"
  by (induction kvs arbitrary: d) (simp_all add: showFieldError_every)

lemma rewrite_at_every:
  "\<forall>e. every1 Q e \<longrightarrow> list_all (every1 Q) (h e) \<Longrightarrow> every1 Q x
     \<Longrightarrow> list_all (every1 Q) (rewrite_at found h p x)"
  "\<forall>e. every1 Q e \<longrightarrow> list_all (every1 Q) (h e) \<Longrightarrow> list_all (every1 Q) xs
     \<Longrightarrow> list_all (every1 Q) (rewrite_kids_at found h p j xs)"
proof (induction found h p x and found h p j xs rule: rewrite_at_rewrite_kids_at.induct)
  case (1 found h p t i n a cs ks)
  then have "every1 Q (Elem t i n a cs (rewrite_kids_at found h p 0 ks))" by simp
  then show ?case using 1(2) by (simp add: Let_def)
qed simp_all

lemma jq_each_at_every:
  assumes "\<And>e. every1 Q e \<Longrightarrow> list_all (every1 Q) (h e)" and "every Q d"
  shows "every Q (jq_each_at found h d)"
  using assms rewrite_at_every(2) [of Q h d found "[]" 0]
  by (simp add: every_def jq_each_at_def)

lemma showFieldErrorIn_every:
  "stable Q \<Longrightarrow> every Q d \<Longrightarrow> showFieldErrorIn ev fs d kv = Some d' \<Longrightarrow> every Q d'"
  by (auto simp: showFieldErrorIn_def showFieldError_every jq_each_at_every every1_markInvalid
        split: if_splits option.splits)

text \<open>The loop over the keys changes the document only, and stops where a round throws.\<close>

lemma showErrors_every:
  "stable Q \<Longrightarrow> every Q (dom pg) \<Longrightarrow> every Q (dom (page_of (showErrors ev fs kvs pg)))"
proof (induction kvs arbitrary: pg)
  case (Cons kv kvs)
  show ?case
  proof (cases "showFieldErrorIn ev fs (dom pg) kv")
    case None
    then show ?thesis using Cons.prems by simp
  next
    case (Some d)
    then have "every Q d" using Cons.prems showFieldErrorIn_every by blast
    then show ?thesis using Some Cons.IH [of "pg\<lparr>dom := d\<rparr>"] Cons.prems(1) by simp
  qed
qed simp

lemma showErrors_keeps:
  "ajaxCache (page_of (showErrors ev fs kvs pg)) = ajaxCache pg
   \<and> trace (page_of (showErrors ev fs kvs pg)) = trace pg"
  by (induction kvs arbitrary: pg) (simp_all split: option.splits)


lemma scrollToFirstError_dom [simp]: "dom (scrollToFirstError ev fs pg) = dom pg"
  by (simp add: scrollToFirstError_def emit_def split: list.splits)

lemma displayFormErrors_dom:
  "dom (page_of (displayFormErrors ev errs fs pg))
     = dom (page_of (showErrors ev fs (own_entries errs) (pg\<lparr>dom := clearErrors (dom pg)\<rparr>)))"
  by (cases "showErrors ev fs (own_entries errs) (pg\<lparr>dom := clearErrors (dom pg)\<rparr>)")
     (simp_all add: displayFormErrors_def andThen_def)

lemma displayFormErrors_every:
  "stable Q \<Longrightarrow> every Q (dom pg) \<Longrightarrow> every Q (dom (page_of (displayFormErrors ev errs fs pg)))"
  by (simp add: displayFormErrors_dom showErrors_every clearErrors_every)


lemma page_of_read [simp]: "page_of (read k v pg) = pg"
  by (simp add: read_def split: sum.splits)

lemma andThen_inv:
  assumes "I (page_of r)" and "\<And>x pg. I pg \<Longrightarrow> I (page_of (f x pg))"
  shows "I (page_of (andThen r f))"
  using assms by (cases r) (simp_all add: andThen_def)

lemma redirectTo_dom [simp]: "dom (redirectTo ev u pg) = dom pg"
  by (simp add: redirectTo_def emit_def)

lemma processJsonData_every:
  assumes "stable Q" and "every Q (dom pg)"
  shows "every Q (dom (page_of (processJsonData ev data opts pg)))"
  unfolding processJsonData_def using assms
  by (auto intro!: andThen_inv [where I = "\<lambda>pg. every Q (dom pg)"] simp: showNotification_every loadAjaxContent_every emit_def)

lemma resetForm_dom [simp]: "dom (page_of (resetForm fs pg)) = dom pg"
  by (simp add: resetForm_def emit_def split: option.splits list.splits)

lemma formSuccess_every:
  assumes "stable Q" and "every Q (dom pg)"
  shows "every Q (dom (page_of (formSuccess ev data opts pg)))"
  unfolding formSuccess_def using assms
  by (auto intro!: andThen_inv [where I = "\<lambda>pg. every Q (dom pg)"] simp: showNotification_every processJsonData_every)

lemma processFormResponse_every:
  assumes "stable Q" and "every Q (dom pg)"
  shows "every Q (dom (page_of (processFormResponse ev data opts pg)))"
  unfolding processFormResponse_def using assms
  by (auto intro!: andThen_inv [where I = "\<lambda>pg. every Q (dom pg)"] simp: formSuccess_every displayFormErrors_every)

lemma showResults_every:
  "every Q (dom pg) \<Longrightarrow> every Q (dom (showResults ev sel html pg))"
  by (simp add: showResults_def jq_each_every every1_jq_html)

lemma displaySearchResults_every:
  assumes "every Q (dom pg)"
  shows "every Q (dom (page_of (displaySearchResults ev rs cs pg)))"
proof (cases cs)
  case None
  then show ?thesis using assms by (simp add: displaySearchResults_def)
next
  case (Some sel)
  show ?thesis
  proof (cases "jq (matches sel) (dom pg) = []")
    case True
    then show ?thesis using assms Some by (simp add: displaySearchResults_def)
  next
    case False
    have "every Q (dom (page_of (andThen (read ''length'' rs pg) (\<lambda>len pg.
            if len = JNum 0
            then Done () (pg\<lparr>dom := jq_each (matches sel)
                                      (\<lambda>e. [jq_html (JStr ''<p>No results found.</p>'') e]) (dom pg)\<rparr>)
            else (case rs of
                    JArr rs \<Rightarrow>
                      (case resultItems rs of
                         Inl e \<Rightarrow> Threw e pg
                       | Inr items \<Rightarrow>
                           Done () (showResults ev sel
                             (''<ul class='' @ [CHR 0x22] @ ''search-results'' @ [CHR 0x22] @ ''>''
                              @ items @ ''</ul>'') pg))
                  | other \<Rightarrow> Threw TypeError pg)))))"
      using assms
      by (auto intro!: andThen_inv [where I = "\<lambda>pg. every Q (dom pg)"] simp: jq_each_every every1_jq_html showResults_every split: jsval.splits sum.splits)
    then show ?thesis using False Some by (simp add: displaySearchResults_def)
  qed
qed

lemma processSearchResponse_every:
  assumes "stable Q" and "every Q (dom pg)"
  shows "every Q (dom (page_of (processSearchResponse ev data opts pg)))"
  unfolding processSearchResponse_def using assms
  by (auto intro!: andThen_inv [where I = "\<lambda>pg. every Q (dom pg)"] simp: displaySearchResults_every processJsonData_every updateSearchQueryDisplay_def
        jq_each_every every1_jq_text)

lemma notifyEach_every:
  "stable Q \<Longrightarrow> every Q (dom pg) \<Longrightarrow> every Q (dom (page_of (notifyEach ev ns pg)))"
proof (induction ns arbitrary: pg)
  case (Cons n ns)
  show ?case unfolding notifyEach.simps using Cons.prems
    by (auto intro!: andThen_inv [where I = "\<lambda>pg. every Q (dom pg)"] simp: Cons.IH showNotification_every)
qed simp

lemma processNotificationResponse_every:
  assumes "stable Q" and "every Q (dom pg)"
  shows "every Q (dom (page_of (processNotificationResponse ev data opts pg)))"
  unfolding processNotificationResponse_def using assms
  by (auto intro!: andThen_inv [where I = "\<lambda>pg. every Q (dom pg)"] simp: notifyEach_every processJsonData_every split: jsval.splits)

lemma route_every:
  "stable Q \<Longrightarrow> every Q (dom pg) \<Longrightarrow> every Q (dom (page_of (route ev data rt opts pg)))"
  by (simp add: route_def processFormResponse_every processSearchResponse_every
        processNotificationResponse_every processJsonData_every)

lemma handleJsonResponse_every:
  assumes "stable Q" and "every Q (dom pg)"
  shows "every Q (dom (page_of (handleJsonResponse ev data rt opts pg)))"
proof (cases "route ev data rt opts pg")
  case (Done u pg1)
  then show ?thesis using route_every [OF assms, of ev data rt opts]
    by (simp add: handleJsonResponse_def)
next
  case (Threw e pg1)
  then show ?thesis using route_every [OF assms, of ev data rt opts]
    by (simp add: handleJsonResponse_def showNotification_every [OF assms(1)])
qed

lemma handleJsonResponse_returned: "returned (handleJsonResponse ev data rt opts pg)"
  by (simp add: handleJsonResponse_def split: outcome.splits)


lemma rewrite_establish:
  assumes h: "\<And>t i n a cs ks ks'. P (Elem t i n a cs ks) \<Longrightarrow> Q t cs \<Longrightarrow> list_all (every1 Q') ks'
                \<Longrightarrow> list_all (every1 Q') (h (Elem t i n a cs ks'))"
    and keep: "\<And>t i n a cs ks. \<not> P (Elem t i n a cs ks) \<Longrightarrow> Q t cs \<Longrightarrow> Q' t cs"
  shows "every1 Q x \<Longrightarrow> list_all (every1 Q') (rewrite (\<lambda>e. False) P h True x)"
proof (induction x)
  case (Elem t i n a cs ks)
  have ks: "list_all (every1 Q') (concat (map (rewrite (\<lambda>e. False) P h True) ks))"
    using Elem by (auto simp: list_all_iff)
  show ?case
  proof (cases "P (Elem t i n a cs ks)")
    case True
    then show ?thesis using h [OF True _ ks] Elem.prems by (simp add: Let_def)
  next
    case False
    then show ?thesis using keep [OF False] Elem.prems ks by (simp add: Let_def)
  qed
qed simp_all

lemma jq_each_establish:
  assumes "\<And>t i n a cs ks ks'. P (Elem t i n a cs ks) \<Longrightarrow> Q t cs \<Longrightarrow> list_all (every1 Q') ks'
                \<Longrightarrow> list_all (every1 Q') (h (Elem t i n a cs ks'))"
    and "\<And>t i n a cs ks. \<not> P (Elem t i n a cs ks) \<Longrightarrow> Q t cs \<Longrightarrow> Q' t cs"
    and "every Q d"
  shows "every Q' (jq_each P h d)"
  using assms(3) rewrite_establish [of P Q Q' h, OF assms(1,2)]
  by (auto simp: every_def jq_each_def list_all_iff)

lemma every_True: "every (\<lambda>t cs. True) d"
proof -
  have "every1 (\<lambda>t cs. True) x" for x
    by (induction x) (simp_all add: list_all_iff)
  then show ?thesis by (simp add: every_def list_all_iff)
qed

lemma finishLoading_no_loading:
  assumes "c \<noteq> ''ajax-loading''" and "c \<noteq> ''loading-spinner''" and "c \<noteq> ''show''"
  shows "every no_loading (dom (finishLoading c pg))"
proof -
  have 1: "every spinner_hidden (jq_each (has_class ''loading-spinner'') (\<lambda>e. [removeClass ''show'' e]) (dom pg))"
    by (rule jq_each_establish [where Q = "\<lambda>t cs. True"]) (simp_all add: spinner_hidden_def every_True)
  have "every no_loading (jq_each (has_tag ''body'') (\<lambda>e. [addClass c (removeClass ''ajax-loading'' e)])
          (jq_each (has_class ''loading-spinner'') (\<lambda>e. [removeClass ''show'' e]) (dom pg)))"
    using assms
    by (intro jq_each_establish [where Q = spinner_hidden, OF _ _ 1])
       (auto simp: spinner_hidden_def no_loading_def)
  then show ?thesis by (simp add: finishLoading_def)
qed


lemma showLoading_loading: "every loading_flag (dom (showLoading pg))"
proof -
  have 1: "every (\<lambda>t cs. if ''loading-spinner'' \<in> set cs then ''show'' \<in> set cs else True)
             (jq_each (has_class ''loading-spinner'') (\<lambda>e. [addClass ''show'' e]) (dom pg))"
    by (rule jq_each_establish [where Q = "\<lambda>t cs. True"]) (simp_all add: every_True)
  have "every loading_flag (jq_each (has_tag ''body'') (\<lambda>e. [addClass ''ajax-loading'' e])
          (jq_each (has_class ''loading-spinner'') (\<lambda>e. [addClass ''show'' e]) (dom pg)))"
    by (intro jq_each_establish [OF _ _ 1]) (auto simp: loading_flag_def)
  then show ?thesis by (simp add: showLoading_def)
qed

lemma stable_no_loading: "stable no_loading"
  by (simp add: stable_def no_loading_def)

lemma stable_body_has: "c \<noteq> ''is-invalid'' \<Longrightarrow> stable (body_has c)"
  by (simp add: stable_def body_has_def)

lemma stable_body_lacks: "c \<noteq> ''is-invalid'' \<Longrightarrow> stable (body_lacks c)"
  by (simp add: stable_def body_lacks_def)

lemma finishLoading_body_has: "every (body_has c) (dom (finishLoading c pg))"
proof -
  have "every (body_has c) (jq_each (has_tag ''body'') (\<lambda>e. [addClass c (removeClass ''ajax-loading'' e)]) d)" for d
    by (rule jq_each_establish [where Q = "\<lambda>t cs. True"]) (simp_all add: every_True body_has_def)
  then show ?thesis by (simp add: finishLoading_def)
qed

lemma finishLoading_keeps_has:
  assumes "c' \<noteq> ''ajax-loading''" and "c' \<noteq> ''show''" and "every (body_has c') (dom pg)"
  shows "every (body_has c') (dom (finishLoading c pg))"
  unfolding finishLoading_def using assms
  apply simp
  apply (intro jq_each_every)
  subgoal for e by (cases e) (simp_all add: body_has_def)
  subgoal for e by (cases e) (simp_all add: body_has_def)
  apply assumption
  done

lemma finishLoading_keeps_lacks:
  assumes "c' \<noteq> c" and "every (body_lacks c') (dom pg)"
  shows "every (body_lacks c') (dom (finishLoading c pg))"
  unfolding finishLoading_def using assms
  apply simp
  apply (intro jq_each_every)
  subgoal for e by (cases e) (simp_all add: body_lacks_def)
  subgoal for e by (cases e) (simp_all add: body_lacks_def)
  apply assumption
  done

lemma finishLoading_trace [simp]: "trace (finishLoading c pg) = trace pg"
  by (simp add: finishLoading_def)

text \<open>A completion callback is: finish loading with the terminal class, then something stable.\<close>

lemma complete_every:
  assumes "stable Q" and "every Q (dom (finishLoading (terminal c) pg))"
  shows "every Q (dom (page_of (complete ev c pg)))"
proof (cases c)
  case (JsonDone opts data)
  then show ?thesis using assms handleJsonResponse_returned [of ev data "responseTypeOr opts" opts "finishLoading ''ajax-success'' pg"]
      handleJsonResponse_every [OF assms(1), of "finishLoading ''ajax-success'' pg" ev data "responseTypeOr opts" opts]
    by (cases "handleJsonResponse ev data (responseTypeOr opts) opts (finishLoading ''ajax-success'' pg)")
       (simp_all add: sendJsonRequest_done_def terminal_def andThen_def)
next
  case (JsonFail x ts er)
  then show ?thesis using assms
    by (simp add: sendJsonRequest_fail_def terminal_def emit_def showNotification_every)
next
  case (HoverSuccess l data)
  have s: "dom (store l data pg) = dom (finishLoading ''ajax-success'' pg)"
    by (simp add: store_def finishLoading_def)
  show ?thesis using assms HoverSuccess s
      handleJsonResponse_every [OF assms(1), of "store l data pg" ev data "jsonHandler l" linkOptions]
    by (cases "handleJsonResponse ev data (jsonHandler l) linkOptions (store l data pg)")
       (simp_all add: onHover_success_def terminal_def andThen_def)
next
  case (HoverError l)
  then show ?thesis using assms
    by (simp add: onHover_error_def terminal_def showNotification_every)
next
  case (ClickSuccess l data)
  have s: "dom (store l data pg) = dom (finishLoading ''ajax-success'' pg)"
    by (simp add: store_def finishLoading_def)
  show ?thesis using assms ClickSuccess s
      handleJsonResponse_every [OF assms(1), of "store l data pg" ev data "jsonHandler l" linkOptions]
      loadAjaxContent_every [OF assms(1), of "store l data pg" ev data]
    by (cases "handleJsonResponse ev data (jsonHandler l) linkOptions (store l data pg)")
       (simp_all add: onClick_success_def present_def terminal_def andThen_def)
next
  case (ClickError l)
  then show ?thesis using assms
    by (simp add: onClick_error_def terminal_def showNotification_every)
qed

lemma complete_returned: "returned (complete ev c pg)"
proof (cases c)
  case (JsonDone opts data)
  then show ?thesis using handleJsonResponse_returned [of ev data "responseTypeOr opts" opts "finishLoading ''ajax-success'' pg"]
    by (cases "handleJsonResponse ev data (responseTypeOr opts) opts (finishLoading ''ajax-success'' pg)")
       (simp_all add: sendJsonRequest_done_def andThen_def)
next
  case (HoverSuccess l data)
  then show ?thesis using handleJsonResponse_returned [of ev data "jsonHandler l" linkOptions "store l data pg"]
    by (cases "handleJsonResponse ev data (jsonHandler l) linkOptions (store l data pg)")
       (simp_all add: onHover_success_def andThen_def)
next
  case (ClickSuccess l data)
  then show ?thesis using handleJsonResponse_returned [of ev data "jsonHandler l" linkOptions "store l data pg"]
    by (cases "handleJsonResponse ev data (jsonHandler l) linkOptions (store l data pg)")
       (simp_all add: onClick_success_def present_def andThen_def)
qed simp_all

section \<open>What the handlers add to the trace\<close>

lemma showNotification_trace:
  "trace (showNotification ev m ty pg)
     = trace pg @ [Notification m (if ty = JUndefined then JStr ''info'' else ty) (toastMechanism ev)]"
  by (simp add: showNotification_def Let_def emit_def toastMechanism_def)

lemma announce_trace [simp]: "trace (announceToScreenReader m pg) = trace pg"
  by (simp add: announceToScreenReader_def Let_def)

lemma loadAjaxContent_trace:
  "\<exists>es. trace (loadAjaxContent ev c pg) = trace pg @ es \<and> filter is_navigation es = []"
  by (simp add: loadAjaxContent_def Let_def emit_def)

lemma get_prop_total: "get_prop k d = Inr v \<Longrightarrow> \<exists>w. get_prop k' d = Inr w"
  by (cases d) simp_all

lemma grows_refl: "\<exists>es. trace pg = trace pg @ es"
  by simp

lemma grows_showNotification:
  "\<exists>es. trace pg = tr @ es \<Longrightarrow> \<exists>es. trace (showNotification ev m ty pg) = tr @ es"
  by (auto simp: showNotification_trace)

lemma grows_loadAjaxContent:
  "\<exists>es. trace pg = tr @ es \<Longrightarrow> \<exists>es. trace (loadAjaxContent ev c pg) = tr @ es"
  using loadAjaxContent_trace [of ev c pg] by auto

lemma grows_redirectTo:
  "\<exists>es. trace pg = tr @ es \<Longrightarrow> \<exists>es. trace (redirectTo ev u pg) = tr @ es"
  by (auto simp: redirectTo_def emit_def)

lemma grows_emit: "\<exists>es. trace pg = tr @ es \<Longrightarrow> \<exists>es. trace (emit e pg) = tr @ es"
  by (auto simp: emit_def)

lemma grows_processJsonData:
  assumes "\<exists>es. trace pg = tr @ es"
  shows "\<exists>es. trace (page_of (processJsonData ev payload opts pg)) = tr @ es"
  unfolding processJsonData_def using assms
  by (auto intro!: andThen_inv [where I = "\<lambda>pg. \<exists>es. trace pg = tr @ es"]
        grows_showNotification grows_loadAjaxContent grows_redirectTo grows_emit)

lemma loadAjaxContent_quiet:
  "\<exists>es. trace (loadAjaxContent ev c pg) = trace pg @ es
        \<and> list_all (\<lambda>e. \<not> is_navigation e \<and> \<not> is_notification e) es"
  by (simp add: loadAjaxContent_def Let_def emit_def list_all_iff)

lemma readable_get_prop: "readable n \<Longrightarrow> get_prop k n = Inr (field k n)"
  by (cases n) (simp_all add: field_def)

lemma unreadable_get_prop: "\<not> readable n \<Longrightarrow> get_prop k n = Inl TypeError"
  by (cases n) simp_all

lemma get_prop_readable: "get_prop k d = Inr v \<Longrightarrow> readable d"
  by (cases d) simp_all

text \<open>The loop of the script is the specification's, up to the first entry that cannot be read.\<close>

lemma notifyEach_run:
  "notifyEach ev ns pg
     = (if list_all readable ns then Done () (notifiedInOrder ev ns pg)
        else Threw TypeError (notifiedInOrder ev (takeWhile readable ns) pg))"
proof (induction ns arbitrary: pg)
  case Nil
  show ?case by (simp add: notifiedInOrder_def)
next
  case (Cons n ns)
  show ?case
  proof (cases "readable n")
    case True
    then show ?thesis
      using Cons.IH [of "showNotification ev (field ''message'' n) (js_or (field ''type'' n) (JStr ''info'')) pg"]
      by (simp add: andThen_def read_def readable_get_prop notifiedInOrder_def)
  next
    case False
    then show ?thesis
      by (simp add: andThen_def read_def unreadable_get_prop notifiedInOrder_def)
  qed
qed

lemma notifiedInOrder_trace:
  "trace (notifiedInOrder ev ns pg) = trace pg @ map (notice ev) ns"
proof (induction ns arbitrary: pg)
  case Nil
  show ?case by (simp add: notifiedInOrder_def)
next
  case (Cons n ns)
  have "js_or (field ''type'' n) (JStr ''info'') \<noteq> JUndefined"
    by (cases "field ''type'' n") (auto simp: js_or_def)
  then have "trace (showNotification ev (field ''message'' n) (js_or (field ''type'' n) (JStr ''info'')) pg)
               = trace pg @ [notice ev n]"
    by (simp add: showNotification_trace notice_def)
  then show ?case
    using Cons.IH [of "showNotification ev (field ''message'' n) (js_or (field ''type'' n) (JStr ''info'')) pg"]
    by (simp add: notifiedInOrder_def)
qed

text \<open>\<^verbatim>\<open>processJsonData\<close> on an envelope that can be read, step by step.\<close>

lemma processJsonData_run:
  assumes "readable data"
  shows "processJsonData ev data opts pg
     = Done () (emit (JsonProcessed data)
         (let pg1 = (if truthy (field ''message'' data)
                     then showNotification ev (field ''message'' data)
                            (JStr (if truthy (field ''success'' data) then ''success'' else ''error'')) pg
                     else pg);
              pg2 = (if truthy (field ''redirect'' data)
                     then redirectTo ev (field ''redirect'' data) pg1 else pg1)
          in if truthy (field ''content'' data)
             then loadAjaxContent ev (field ''content'' data) pg2 else pg2))"
  by (simp add: processJsonData_def andThen_def read_def readable_get_prop [OF assms] Let_def)

lemma redirectTo_notifications:
  "filter is_notification (trace (redirectTo ev u pg)) = filter is_notification (trace pg)"
  by (simp add: redirectTo_def emit_def)

lemma loadAjaxContent_notifications:
  "filter is_notification (trace (loadAjaxContent ev c pg)) = filter is_notification (trace pg)"
proof -
  obtain es where "trace (loadAjaxContent ev c pg) = trace pg @ es"
    and "list_all (\<lambda>e. \<not> is_navigation e \<and> \<not> is_notification e) es"
    using loadAjaxContent_quiet by blast
  then show ?thesis by (simp add: list_all_iff)
qed

lemma processJsonData_notifications:
  assumes "readable data"
  shows "filter is_notification (trace (page_of (processJsonData ev data opts pg)))
           = filter is_notification (trace pg) @ ownNotice ev data"
  unfolding processJsonData_run [OF assms]
  by (simp add: Let_def emit_def loadAjaxContent_notifications redirectTo_notifications
        showNotification_trace ownNotice_def)




lemma notice_default_info:
  "map_of kvs ''type'' = None \<Longrightarrow>
   notice ev (JObj kvs) = Notification (field ''message'' (JObj kvs)) (JStr ''info'') (toastMechanism ev)"
  by (simp add: notice_def field_def js_or_def)

section \<open>Showing the errors of a form\<close>








lemma rewrite_errorNode [simp]: "rewrite A (has_name k) h ins (errorNode v) = [errorNode v]"
  by (simp add: errorNode_def errorDiv_def)




lemma named_in_Nil [simp]: "\<not> named_in [] e"
  by (cases e) (simp_all split: option.splits)


















section \<open>What the handlers never do: send a request, write the cache\<close>

lemma undisturbed_dom [simp]: "undisturbed tr m (pg\<lparr>dom := d\<rparr>) = undisturbed tr m pg"
  by (simp add: undisturbed_def)

lemma undisturbed_iff:
  "undisturbed tr m pg
     \<longleftrightarrow> ajaxCache pg = m \<and> (\<exists>es. trace pg = tr @ es \<and> filter is_request es = [])"
proof
  assume u: "undisturbed tr m pg"
  then have "take (length tr) (trace pg) = tr" by (simp add: undisturbed_def)
  then have "trace pg = tr @ drop (length tr) (trace pg)"
    by (metis append_take_drop_id)
  then show "ajaxCache pg = m \<and> (\<exists>es. trace pg = tr @ es \<and> filter is_request es = [])"
    using u unfolding undisturbed_def by blast
next
  assume "ajaxCache pg = m \<and> (\<exists>es. trace pg = tr @ es \<and> filter is_request es = [])"
  then show "undisturbed tr m pg" by (auto simp: undisturbed_def)
qed

lemma undisturbed_emit:
  "\<not> is_request e \<Longrightarrow> undisturbed tr m pg \<Longrightarrow> undisturbed tr m (emit e pg)"
  by (auto simp: undisturbed_iff emit_def)

lemma undisturbed_emits:
  "filter is_request es = [] \<Longrightarrow> undisturbed tr m pg \<Longrightarrow> undisturbed tr m (pg\<lparr>trace := trace pg @ es\<rparr>)"
  by (auto simp: undisturbed_iff)

lemma undisturbed_finishLoading:
  "undisturbed tr m pg \<Longrightarrow> undisturbed tr m (finishLoading c pg)"
  by (simp add: finishLoading_def)

lemma undisturbed_showNotification:
  "undisturbed tr m pg \<Longrightarrow> undisturbed tr m (showNotification ev msg ty pg)"
  by (simp add: showNotification_def Let_def undisturbed_emit)

lemma undisturbed_announce:
  "undisturbed tr m pg \<Longrightarrow> undisturbed tr m (announceToScreenReader msg pg)"
  by (simp add: announceToScreenReader_def Let_def)

lemma undisturbed_loadAjaxContent:
  "undisturbed tr m pg \<Longrightarrow> undisturbed tr m (loadAjaxContent ev c pg)"
  by (simp add: loadAjaxContent_def Let_def undisturbed_emit undisturbed_announce undisturbed_emits)

lemma undisturbed_redirectTo:
  "undisturbed tr m pg \<Longrightarrow> undisturbed tr m (redirectTo ev u pg)"
  by (simp add: redirectTo_def undisturbed_emit undisturbed_emits)

lemma undisturbed_showErrors:
  "undisturbed tr m pg \<Longrightarrow> undisturbed tr m (page_of (showErrors ev fs kvs pg))"
  by (simp add: undisturbed_def showErrors_keeps)

lemma undisturbed_displayFormErrors:
  "undisturbed tr m pg \<Longrightarrow> undisturbed tr m (page_of (displayFormErrors ev errs fs pg))"
  unfolding displayFormErrors_def
  by (auto intro!: andThen_inv [where I = "undisturbed tr m"] undisturbed_showErrors
        simp: scrollToFirstError_def undisturbed_emit split: list.splits)

lemma undisturbed_processJsonData:
  "undisturbed tr m pg \<Longrightarrow> undisturbed tr m (page_of (processJsonData ev payload opts pg))"
  unfolding processJsonData_def
  by (auto intro!: andThen_inv [where I = "undisturbed tr m"]
        undisturbed_showNotification undisturbed_loadAjaxContent undisturbed_redirectTo undisturbed_emit)

lemma undisturbed_resetForm:
  "undisturbed tr m pg \<Longrightarrow> undisturbed tr m (page_of (resetForm fs pg))"
  by (simp add: resetForm_def undisturbed_emit split: option.splits list.splits)

lemma undisturbed_formSuccess:
  "undisturbed tr m pg \<Longrightarrow> undisturbed tr m (page_of (formSuccess ev payload opts pg))"
  unfolding formSuccess_def
  by (auto intro!: andThen_inv [where I = "undisturbed tr m"]
        undisturbed_showNotification undisturbed_resetForm undisturbed_processJsonData)

lemma undisturbed_processFormResponse:
  "undisturbed tr m pg \<Longrightarrow> undisturbed tr m (page_of (processFormResponse ev payload opts pg))"
  unfolding processFormResponse_def
  by (auto intro!: andThen_inv [where I = "undisturbed tr m"]
        undisturbed_formSuccess undisturbed_displayFormErrors)

lemma undisturbed_showResults:
  "undisturbed tr m pg \<Longrightarrow> undisturbed tr m (showResults ev sel html pg)"
  by (simp add: showResults_def undisturbed_emits)

lemma undisturbed_displaySearchResults:
  assumes "undisturbed tr m pg"
  shows "undisturbed tr m (page_of (displaySearchResults ev rs cs pg))"
proof (cases cs)
  case None
  then show ?thesis using assms by (simp add: displaySearchResults_def)
next
  case (Some sel)
  show ?thesis
  proof (cases "jq (matches sel) (dom pg) = []")
    case True
    then show ?thesis using assms Some by (simp add: displaySearchResults_def)
  next
    case False
    then show ?thesis using assms Some unfolding displaySearchResults_def
      by (auto intro!: andThen_inv [where I = "undisturbed tr m"] undisturbed_showResults
            split: jsval.splits sum.splits)
  qed
qed

lemma undisturbed_processSearchResponse:
  "undisturbed tr m pg \<Longrightarrow> undisturbed tr m (page_of (processSearchResponse ev payload opts pg))"
  unfolding processSearchResponse_def
  by (auto intro!: andThen_inv [where I = "undisturbed tr m"]
        undisturbed_displaySearchResults undisturbed_processJsonData
        simp: updateSearchQueryDisplay_def)

lemma undisturbed_notifyEach:
  "undisturbed tr m pg \<Longrightarrow> undisturbed tr m (page_of (notifyEach ev ns pg))"
proof (induction ns arbitrary: pg)
  case (Cons n ns)
  show ?case unfolding notifyEach.simps using Cons.prems
    by (auto intro!: andThen_inv [where I = "undisturbed tr m"] Cons.IH undisturbed_showNotification)
qed simp

lemma undisturbed_processNotificationResponse:
  "undisturbed tr m pg \<Longrightarrow> undisturbed tr m (page_of (processNotificationResponse ev payload opts pg))"
  unfolding processNotificationResponse_def
  by (auto intro!: andThen_inv [where I = "undisturbed tr m"]
        undisturbed_notifyEach undisturbed_processJsonData split: jsval.splits)

lemma undisturbed_handleJsonResponse:
  assumes "undisturbed tr m pg"
  shows "undisturbed tr m (page_of (handleJsonResponse ev payload rt opts pg))"
proof -
  have r: "undisturbed tr m (page_of (route ev payload rt opts pg))"
    using assms
    by (simp add: route_def undisturbed_processFormResponse undisturbed_processSearchResponse
          undisturbed_processNotificationResponse undisturbed_processJsonData)
  then show ?thesis
    by (cases "route ev payload rt opts pg")
       (simp_all add: handleJsonResponse_def undisturbed_showNotification)
qed

lemma undisturbed_start: "undisturbed (trace pg) (ajaxCache pg) pg"
  by (simp add: undisturbed_def)

lemma undisturbed_requests:
  "undisturbed tr m pg \<Longrightarrow> filter is_request (trace pg) = filter is_request tr"
proof -
  assume u: "undisturbed tr m pg"
  then obtain es where "trace pg = tr @ es" and "filter is_request es = []"
    unfolding undisturbed_iff by blast
  then show ?thesis by simp
qed

text \<open>With a truthy value cached for its URL, a link sends nothing.\<close>

lemma truthy_cache_hit:
  assumes "cached (url l) pg"
  shows "onHover l pg = pg"
    and "filter is_request (trace (page_of (onClick ev l pg))) = filter is_request (trace pg)"
    and "ajaxCache (page_of (onClick ev l pg)) = ajaxCache pg"
proof -
  show "onHover l pg = pg" using assms by (simp add: onHover_def)
  have u: "undisturbed (trace pg) (ajaxCache pg) (page_of (onClick ev l pg))"
  proof (cases "ajaxLoad l \<or> rtype l = ''json''")
    case False
    then show ?thesis by (simp add: onClick_def undisturbed_start)
  next
    case True
    obtain v where v: "ajaxCache pg (url l) = Some v" using assms by (auto simp: cached_def split: option.splits)
    have "undisturbed (trace pg) (ajaxCache pg) (page_of (present ev l v pg))"
      unfolding present_def
      by (auto intro!: andThen_inv [where I = "undisturbed (trace pg) (ajaxCache pg)"]
            undisturbed_handleJsonResponse undisturbed_loadAjaxContent undisturbed_start)
    then show ?thesis using True assms v by (simp add: onClick_def)
  qed
  show "filter is_request (trace (page_of (onClick ev l pg))) = filter is_request (trace pg)"
    using undisturbed_requests [OF u] .
  show "ajaxCache (page_of (onClick ev l pg)) = ajaxCache pg"
    using u by (simp add: undisturbed_def)
qed

text \<open>Only the success callbacks of the two prefetch requests write the cache.\<close>

lemma cache_written_on_success:
  "ajaxCache (page_of (complete ev c pg))
     = (case c of HoverSuccess l v \<Rightarrow> (ajaxCache pg)(url l \<mapsto> v)
        | ClickSuccess l v \<Rightarrow> (ajaxCache pg)(url l \<mapsto> v)
        | other \<Rightarrow> ajaxCache pg)"
proof (cases c)
  case (JsonDone opts v)
  have "undisturbed (trace pg) (ajaxCache pg) (page_of (sendJsonRequest_done ev opts v pg))"
    unfolding sendJsonRequest_done_def
    by (auto intro!: andThen_inv [where I = "undisturbed (trace pg) (ajaxCache pg)"]
          undisturbed_handleJsonResponse undisturbed_finishLoading undisturbed_start)
  then show ?thesis using JsonDone by (simp add: undisturbed_def)
next
  case (JsonFail x ts er)
  have "undisturbed (trace pg) (ajaxCache pg) (sendJsonRequest_fail ev x ts er pg)"
    unfolding sendJsonRequest_fail_def
    by (intro undisturbed_emit undisturbed_showNotification undisturbed_finishLoading undisturbed_start) simp
  then show ?thesis using JsonFail by (simp add: undisturbed_def)
next
  case (HoverSuccess l v)
  have s: "undisturbed (trace pg) ((ajaxCache pg)(url l \<mapsto> v)) (store l v pg)"
    by (simp add: undisturbed_def store_def finishLoading_def)
  have "undisturbed (trace pg) ((ajaxCache pg)(url l \<mapsto> v)) (page_of (onHover_success ev l v pg))"
    unfolding onHover_success_def using s
    by (auto intro!: andThen_inv [where I = "undisturbed (trace pg) ((ajaxCache pg)(url l \<mapsto> v))"]
          undisturbed_handleJsonResponse)
  then show ?thesis using HoverSuccess by (simp add: undisturbed_def)
next
  case (HoverError l)
  have "undisturbed (trace pg) (ajaxCache pg) (onHover_error ev l pg)"
    unfolding onHover_error_def
    by (intro undisturbed_showNotification undisturbed_finishLoading undisturbed_start)
  then show ?thesis using HoverError by (simp add: undisturbed_def)
next
  case (ClickSuccess l v)
  have s: "undisturbed (trace pg) ((ajaxCache pg)(url l \<mapsto> v)) (store l v pg)"
    by (simp add: undisturbed_def store_def finishLoading_def)
  have "undisturbed (trace pg) ((ajaxCache pg)(url l \<mapsto> v)) (page_of (onClick_success ev l v pg))"
    unfolding onClick_success_def present_def using s
    by (auto intro!: andThen_inv [where I = "undisturbed (trace pg) ((ajaxCache pg)(url l \<mapsto> v))"]
          undisturbed_handleJsonResponse undisturbed_loadAjaxContent)
  then show ?thesis using ClickSuccess by (simp add: undisturbed_def)
next
  case (ClickError l)
  have "undisturbed (trace pg) (ajaxCache pg) (onClick_error ev l pg)"
    unfolding onClick_error_def
    by (intro undisturbed_showNotification undisturbed_finishLoading undisturbed_start)
  then show ?thesis using ClickError by (simp add: undisturbed_def)
qed

section \<open>Evaluating the model\<close>

lemmas run_defs = showNotification_def jq_def jq_each_def jq_each_under_def jq_under_def
  emit_def toastHTML_def jq_text_def jq_html_def Let_def
  finishLoading_def showLoading_def andThen_def read_def
  handleJsonResponse_def route_def processJsonData_def processFormResponse_def
  processSearchResponse_def processNotificationResponse_def formSuccess_def resetForm_def
  displayFormErrors_def clearErrors_def showFieldError_def invalid_fields_def form_scope_def
  errorDiv_def errorNode_def errorMarkup_def plain_def selectable_def rejected_def markInvalid_def
  showFieldErrorIn_def jq_each_at_def scrollToFirstError_def notifiedInOrder_def ownNotice_def
  matches_def loadAjaxContent_def announceToScreenReader_def srRegion_def
  redirectTo_def displaySearchResults_def showResults_def updateSearchQueryDisplay_def
  sendJsonRequest_def sendJsonRequest_done_def sendJsonRequest_fail_def errorMessage_def
  responseTypeOr_def js_or_def linkOptions_def cached_def fetch_def onHover_def store_def
  onHover_success_def onHover_error_def present_def onClick_def onClick_success_def onClick_error_def
  body_classes_def spinner_classes_def toast_classes_def toast_text_def
  blank_page_def demo_page_def plain_env_def calm_env_def
  toastMechanism_def field_def notice_def formOptions_def about_link_def named_fields_def
  errorBody_def parsing_env_def

section \<open>Notification Emitter: the severity class\<close>

text \<open>
  C2. \<^verbatim>\<open>showNotification('Saved', 'success')\<close> on a page without a toast, then
  \<^verbatim>\<open>showNotification('Failed', 'error')\<close>: the message text is rewritten each time, but
  the class list of the toast is \<^verbatim>\<open>toast\<close> after both calls. The severity is never
  applied as a class, because the statement that would do it stops at \<^verbatim>\<open>$toast.remove\<close>.
\<close>

theorem severity_class_not_applied:
  "toast_classes (showNotification plain_env (JStr ''Saved'') (JStr ''success'') blank_page) = [[''toast'']]
   \<and> toast_classes (showNotification plain_env (JStr ''Failed'') (JStr ''error'')
         (showNotification plain_env (JStr ''Saved'') (JStr ''success'') blank_page)) = [[''toast'']]
   \<and> toast_text (showNotification plain_env (JStr ''Failed'') (JStr ''error'')
         (showNotification plain_env (JStr ''Saved'') (JStr ''success'') blank_page)) = [[Text ''Failed'']]"
  by (simp add: run_defs)

section \<open>Request Dispatcher: the loading flag and the terminal classes\<close>

text \<open>
  C3, as amended. A request sent with the default hook (\<open>options\<close> without
  \<^verbatim>\<open>beforeSend\<close>), and each request of \<^verbatim>\<open>ajaxPrefetch\<close>, sets the loading flag before it
  is sent: the body carries \<^verbatim>\<open>ajax-loading\<close> and every spinner \<^verbatim>\<open>show\<close>. Every completion
  callback, on the success path and on the failure path and from any page, returns and
  leaves no loading state: no body carries \<^verbatim>\<open>ajax-loading\<close> and no spinner \<^verbatim>\<open>show\<close>.
\<close>

theorem loading_flag_cleared:
  "(beforeSend opts = None \<longrightarrow>
      (\<exists>pg1. sendJsonRequest u payload method opts pg = emit (AjaxSent u method ''json'') pg1
             \<and> every loading_flag (dom pg1)))
   \<and> (\<exists>pg1. fetch l pg = emit (AjaxSent (url l) ''GET'' (if rtype l = ''json'' then ''json'' else ''html'')) pg1
             \<and> every loading_flag (dom pg1))
   \<and> returned (complete ev c pg)
   \<and> every no_loading (dom (page_of (complete ev c pg)))"
proof -
  have a: "every no_loading (dom (page_of (complete ev c pg)))"
    by (rule complete_every [OF stable_no_loading])
       (simp add: finishLoading_no_loading terminal_def)
  show ?thesis using a complete_returned [of ev c pg] showLoading_loading [of pg]
    by (auto simp: sendJsonRequest_def fetch_def)
qed

theorem loading_flag_cleared_witness:
  "beforeSend linkOptions = None
   \<and> every loading_flag (dom (sendJsonRequest ''/contact/'' (JObj []) ''POST'' linkOptions demo_page))
   \<and> every no_loading (dom (page_of (complete plain_env (JsonDone linkOptions (JObj []))
         (sendJsonRequest ''/contact/'' (JObj []) ''POST'' linkOptions demo_page))))
   \<and> body_classes (sendJsonRequest ''/contact/'' (JObj []) ''POST'' linkOptions demo_page) = [[''ajax-loading'']]
   \<and> body_classes (page_of (complete plain_env (JsonDone linkOptions (JObj []))
         (sendJsonRequest ''/contact/'' (JObj []) ''POST'' linkOptions demo_page))) = [[''ajax-success'']]"
proof -
  have h: "beforeSend linkOptions = None" by (simp add: linkOptions_def)
  from loading_flag_cleared [of linkOptions "''/contact/''" "JObj []" "''POST''" demo_page
      "\<lparr>url = ''/about/'', rtype = ''default'', jsonHandler = ''default'', ajaxLoad = True\<rparr>"
      plain_env "JsonDone linkOptions (JObj [])"] h
  have 1: "every loading_flag (dom (sendJsonRequest ''/contact/'' (JObj []) ''POST'' linkOptions demo_page))"
    by (auto simp: emit_def)
  from loading_flag_cleared [of linkOptions "''/contact/''" "JObj []" "''POST''"
      "sendJsonRequest ''/contact/'' (JObj []) ''POST'' linkOptions demo_page"
      "\<lparr>url = ''/about/'', rtype = ''default'', jsonHandler = ''default'', ajaxLoad = True\<rparr>"
      plain_env "JsonDone linkOptions (JObj [])"]
  have 2: "every no_loading (dom (page_of (complete plain_env (JsonDone linkOptions (JObj []))
         (sendJsonRequest ''/contact/'' (JObj []) ''POST'' linkOptions demo_page))))"
    by simp
  show ?thesis using h 1 2 by (simp add: run_defs)
qed

text \<open>
  C3 as stated fails for a request whose options replace \<^verbatim>\<open>beforeSend\<close>: the caller's hook
  runs instead of the default one, and the request is sent with no loading flag set.
\<close>

theorem loading_flag_counterexample:
  "trace (sendJsonRequest ''/contact/'' (JObj []) ''POST'' (linkOptions\<lparr>beforeSend := Some (\<lambda>pg. pg)\<rparr>) demo_page)
     = [AjaxSent ''/contact/'' ''POST'' ''json'']
   \<and> body_classes (sendJsonRequest ''/contact/'' (JObj []) ''POST'' (linkOptions\<lparr>beforeSend := Some (\<lambda>pg. pg)\<rparr>) demo_page) = [[]]
   \<and> spinner_classes (sendJsonRequest ''/contact/'' (JObj []) ''POST'' (linkOptions\<lparr>beforeSend := Some (\<lambda>pg. pg)\<rparr>) demo_page) = [[''loading-spinner'']]
   \<and> \<not> every loading_flag
         (dom (sendJsonRequest ''/contact/'' (JObj []) ''POST'' (linkOptions\<lparr>beforeSend := Some (\<lambda>pg. pg)\<rparr>) demo_page))"
  by (simp add: run_defs every_def loading_flag_def)

text \<open>
  C1, as amended. Every completion callback returns and adds its own terminal class
  to the body: \<^verbatim>\<open>ajax-success\<close> on the success path, \<^verbatim>\<open>ajax-error\<close> on the failure path.
  It neither adds nor removes the other terminal class: a body that carried it still
  does, a body that did not still does not.
\<close>

theorem terminal_class_added:
  "returned (complete ev c pg)
   \<and> every (body_has (terminal c)) (dom (page_of (complete ev c pg)))
   \<and> (every (body_has (other_terminal c)) (dom pg)
        \<longrightarrow> every (body_has (other_terminal c)) (dom (page_of (complete ev c pg))))
   \<and> (every (body_lacks (other_terminal c)) (dom pg)
        \<longrightarrow> every (body_lacks (other_terminal c)) (dom (page_of (complete ev c pg))))"
proof -
  have t: "terminal c \<noteq> ''is-invalid''" and o: "other_terminal c \<noteq> ''is-invalid''"
    and ot: "other_terminal c \<noteq> terminal c" and ol: "other_terminal c \<noteq> ''ajax-loading''"
    and os: "other_terminal c \<noteq> ''show''"
    by (simp_all add: terminal_def other_terminal_def)
  have 1: "every (body_has (terminal c)) (dom (page_of (complete ev c pg)))"
    by (rule complete_every [OF stable_body_has [OF t]]) (rule finishLoading_body_has)
  have 2: "every (body_has (other_terminal c)) (dom (page_of (complete ev c pg)))"
    if "every (body_has (other_terminal c)) (dom pg)"
    by (rule complete_every [OF stable_body_has [OF o]])
       (rule finishLoading_keeps_has [OF ol os that])
  have 3: "every (body_lacks (other_terminal c)) (dom (page_of (complete ev c pg)))"
    if "every (body_lacks (other_terminal c)) (dom pg)"
    by (rule complete_every [OF stable_body_lacks [OF o]])
       (rule finishLoading_keeps_lacks [OF ot that])
  show ?thesis using 1 2 3 complete_returned [of ev c pg] by blast
qed

theorem terminal_class_added_witness:
  "every (body_lacks ''ajax-error'') (dom demo_page)
   \<and> every (body_has ''ajax-success'') (dom (page_of (complete plain_env (JsonDone linkOptions (JObj [])) demo_page)))
   \<and> every (body_lacks ''ajax-error'') (dom (page_of (complete plain_env (JsonDone linkOptions (JObj [])) demo_page)))
   \<and> every (body_has ''ajax-success'')
        (dom (page_of (complete plain_env (JsonFail \<lparr>status = 500, responseText = None\<rparr> ''error'' ''Internal Server Error'')
           (page_of (complete plain_env (JsonDone linkOptions (JObj [])) demo_page)))))
   \<and> every (body_has ''ajax-error'')
        (dom (page_of (complete plain_env (JsonFail \<lparr>status = 500, responseText = None\<rparr> ''error'' ''Internal Server Error'')
           (page_of (complete plain_env (JsonDone linkOptions (JObj [])) demo_page)))))"
proof -
  have h: "every (body_lacks ''ajax-error'') (dom demo_page)"
    by (simp add: demo_page_def every_def body_lacks_def)
  have 1: "every (body_has ''ajax-success'') (dom (page_of (complete plain_env (JsonDone linkOptions (JObj [])) demo_page)))"
    and 2: "every (body_lacks ''ajax-error'') (dom (page_of (complete plain_env (JsonDone linkOptions (JObj [])) demo_page)))"
    using terminal_class_added [of plain_env "JsonDone linkOptions (JObj [])" demo_page] h
    by (simp_all add: terminal_def other_terminal_def)
  have 3: "every (body_has ''ajax-success'')
        (dom (page_of (complete plain_env (JsonFail \<lparr>status = 500, responseText = None\<rparr> ''error'' ''Internal Server Error'')
           (page_of (complete plain_env (JsonDone linkOptions (JObj [])) demo_page)))))"
    and 4: "every (body_has ''ajax-error'')
        (dom (page_of (complete plain_env (JsonFail \<lparr>status = 500, responseText = None\<rparr> ''error'' ''Internal Server Error'')
           (page_of (complete plain_env (JsonDone linkOptions (JObj [])) demo_page)))))"
    using terminal_class_added [of plain_env "JsonFail \<lparr>status = 500, responseText = None\<rparr> ''error'' ''Internal Server Error''"
        "page_of (complete plain_env (JsonDone linkOptions (JObj [])) demo_page)"] 1
    by (simp_all add: terminal_def other_terminal_def)
  show ?thesis using h 1 2 3 4 by simp
qed

text \<open>
  C1 as stated fails: after a request that succeeded and one that failed the body
  carries both terminal classes.
\<close>

theorem both_terminal_classes_counterexample:
  "body_classes (page_of (complete plain_env (JsonFail \<lparr>status = 500, responseText = None\<rparr> ''error'' ''Internal Server Error'')
         (page_of (complete plain_env (JsonDone linkOptions (JObj [])) demo_page))))
   = [[''ajax-success'', ''ajax-error'']]"
  by (simp add: run_defs)

section \<open>Response Router\<close>

text \<open>
  C5. For every envelope, tag, options and page, \<^verbatim>\<open>handleJsonResponse\<close> returns and never
  throws. It returns \<^verbatim>\<open>true\<close> when the handler chain runs to its end. When the chain
  throws, the exception is caught: the page keeps what the chain did before the throw,
  the notification \<^verbatim>\<open>Error processing server response\<close> is emitted with severity
  \<^verbatim>\<open>error\<close>, and the call returns \<^verbatim>\<open>false\<close>.
\<close>

theorem router_catches:
  "returned (handleJsonResponse ev payload rt opts pg)
   \<and> (returned (route ev payload rt opts pg) \<longrightarrow>
        handleJsonResponse ev payload rt opts pg = Done True (page_of (route ev payload rt opts pg)))
   \<and> (\<not> returned (route ev payload rt opts pg) \<longrightarrow>
        handleJsonResponse ev payload rt opts pg
          = Done False (showNotification ev (JStr ''Error processing server response'') (JStr ''error'')
                          (page_of (route ev payload rt opts pg)))
        \<and> trace (page_of (handleJsonResponse ev payload rt opts pg))
            = trace (page_of (route ev payload rt opts pg))
              @ [Notification (JStr ''Error processing server response'') (JStr ''error'')
                   (toastMechanism ev)])"
  by (cases "route ev payload rt opts pg")
     (simp_all add: handleJsonResponse_def showNotification_trace)

theorem router_catches_witness:
  "returned (route plain_env (JObj [(''message'', JStr ''Saved''), (''success'', JBool True)])
        ''default'' linkOptions blank_page)
   \<and> handleJsonResponse plain_env (JObj [(''message'', JStr ''Saved''), (''success'', JBool True)])
        ''default'' linkOptions blank_page
       = Done True (page_of (route plain_env (JObj [(''message'', JStr ''Saved''), (''success'', JBool True)])
                               ''default'' linkOptions blank_page))
   \<and> \<not> returned (route plain_env (JObj [(''notifications'', JArr [JObj [(''message'', JStr ''A'')], JNull])])
        ''notification'' linkOptions blank_page)
   \<and> returned (handleJsonResponse plain_env
         (JObj [(''notifications'', JArr [JObj [(''message'', JStr ''A'')], JNull])])
         ''notification'' linkOptions blank_page)
   \<and> trace (page_of (handleJsonResponse plain_env
         (JObj [(''notifications'', JArr [JObj [(''message'', JStr ''A'')], JNull])])
         ''notification'' linkOptions blank_page))
       = [Notification (JStr ''A'') (JStr ''info'') (FadeFallback 3000),
          Notification (JStr ''Error processing server response'') (JStr ''error'') (FadeFallback 3000)]"
proof -
  have h: "\<not> returned (route plain_env (JObj [(''notifications'', JArr [JObj [(''message'', JStr ''A'')], JNull])])
        ''notification'' linkOptions blank_page)"
    by (simp add: run_defs)
  have t: "trace (page_of (route plain_env (JObj [(''notifications'', JArr [JObj [(''message'', JStr ''A'')], JNull])])
        ''notification'' linkOptions blank_page)) = [Notification (JStr ''A'') (JStr ''info'') (FadeFallback 3000)]"
    by (simp add: run_defs)
  note rc = router_catches [of plain_env
        "JObj [(''notifications'', JArr [JObj [(''message'', JStr ''A'')], JNull])]"
        "''notification''" linkOptions blank_page]
  from rc have r: "returned (handleJsonResponse plain_env
         (JObj [(''notifications'', JArr [JObj [(''message'', JStr ''A'')], JNull])])
         ''notification'' linkOptions blank_page)"
    by blast
  from rc h have "trace (page_of (handleJsonResponse plain_env
         (JObj [(''notifications'', JArr [JObj [(''message'', JStr ''A'')], JNull])])
         ''notification'' linkOptions blank_page))
       = trace (page_of (route plain_env (JObj [(''notifications'', JArr [JObj [(''message'', JStr ''A'')], JNull])])
        ''notification'' linkOptions blank_page))
         @ [Notification (JStr ''Error processing server response'') (JStr ''error'') (toastMechanism plain_env)]"
    by blast
  then have 2: "trace (page_of (handleJsonResponse plain_env
         (JObj [(''notifications'', JArr [JObj [(''message'', JStr ''A'')], JNull])])
         ''notification'' linkOptions blank_page))
       = [Notification (JStr ''A'') (JStr ''info'') (FadeFallback 3000),
          Notification (JStr ''Error processing server response'') (JStr ''error'') (FadeFallback 3000)]"
    using t by (simp add: toastMechanism_def plain_env_def)
  have g: "returned (route plain_env (JObj [(''message'', JStr ''Saved''), (''success'', JBool True)])
        ''default'' linkOptions blank_page)"
    by (simp add: run_defs)
  with router_catches [of plain_env "JObj [(''message'', JStr ''Saved''), (''success'', JBool True)]"
        "''default''" linkOptions blank_page]
  have 1: "handleJsonResponse plain_env (JObj [(''message'', JStr ''Saved''), (''success'', JBool True)])
        ''default'' linkOptions blank_page
       = Done True (page_of (route plain_env (JObj [(''message'', JStr ''Saved''), (''success'', JBool True)])
                               ''default'' linkOptions blank_page))"
    by blast
  show ?thesis using g 1 h r 2 by blast
qed




text \<open>
  C9, as amended. An envelope routed with type \<^verbatim>\<open>notification\<close> whose \<^verbatim>\<open>notifications\<close> is
  an array. Where every entry can be read (none is \<^verbatim>\<open>null\<close>), the router does what the
  generic handler does on the page on which the entries have been notified in order,
  one notification per entry, with the entry's message and with its type, or \<^verbatim>\<open>info\<close>
  where the type is missing or not truthy; the notifications of the whole call are
  those, followed by the one of the envelope's own \<^verbatim>\<open>message\<close> when that is truthy.
  Where an entry cannot be read, the entries before the first such entry are notified
  in order, the loop throws, no later entry is notified, and the router reports the
  failure by an \<^verbatim>\<open>error\<close> notification and returns \<^verbatim>\<open>false\<close>.
\<close>

theorem notifications_in_order:
  assumes "get_prop ''notifications'' payload = Inr (JArr ns)"
  shows "handleJsonResponse ev payload ''notification'' opts pg
           = (if list_all readable ns
              then handleJsonResponse ev payload ''default'' opts (notifiedInOrder ev ns pg)
              else Done False
                     (showNotification ev (JStr ''Error processing server response'') (JStr ''error'')
                        (notifiedInOrder ev (takeWhile readable ns) pg)))
         \<and> trace (notifiedInOrder ev (takeWhile readable ns) pg)
             = trace pg @ map (notice ev) (takeWhile readable ns)
         \<and> filter is_notification
              (trace (page_of (handleJsonResponse ev payload ''notification'' opts pg)))
             = filter is_notification (trace pg) @ map (notice ev) (takeWhile readable ns)
               @ (if list_all readable ns then ownNotice ev payload
                  else [Notification (JStr ''Error processing server response'') (JStr ''error'')
                          (toastMechanism ev)])
         \<and> (\<forall>n. notice ev n
                  = Notification (field ''message'' n)
                      (if truthy (field ''type'' n) then field ''type'' n else JStr ''info'')
                      (toastMechanism ev))
         \<and> (\<forall>kvs. map_of kvs ''type'' = None \<longrightarrow>
               notice ev (JObj kvs)
                 = Notification (field ''message'' (JObj kvs)) (JStr ''info'') (toastMechanism ev))"
proof -
  have rd: "readable payload" using assms by (rule get_prop_readable)
  have r: "route ev payload ''notification'' opts pg
      = (if list_all readable ns then processJsonData ev payload opts (notifiedInOrder ev ns pg)
         else Threw TypeError (notifiedInOrder ev (takeWhile readable ns) pg))"
    using assms
    by (simp add: route_def processNotificationResponse_def andThen_def read_def notifyEach_run)
  have d: "route ev payload ''default'' opts pg' = processJsonData ev payload opts pg'" for pg'
    by (simp add: route_def)
  have 1: "handleJsonResponse ev payload ''notification'' opts pg
           = (if list_all readable ns
              then handleJsonResponse ev payload ''default'' opts (notifiedInOrder ev ns pg)
              else Done False
                     (showNotification ev (JStr ''Error processing server response'') (JStr ''error'')
                        (notifiedInOrder ev (takeWhile readable ns) pg)))"
    by (simp add: handleJsonResponse_def r d)
  have 2: "trace (notifiedInOrder ev (takeWhile readable ns) pg)
             = trace pg @ map (notice ev) (takeWhile readable ns)"
    by (rule notifiedInOrder_trace)
  have 3: "filter is_notification
              (trace (page_of (handleJsonResponse ev payload ''notification'' opts pg)))
             = filter is_notification (trace pg) @ map (notice ev) (takeWhile readable ns)
               @ (if list_all readable ns then ownNotice ev payload
                  else [Notification (JStr ''Error processing server response'') (JStr ''error'')
                          (toastMechanism ev)])"
  proof (cases "list_all readable ns")
    case True
    then have tw: "takeWhile readable ns = ns" by (simp add: list_all_iff)
    have n: "filter is_notification (map (notice ev) ns) = map (notice ev) ns"
      by (induction ns) (simp_all add: notice_def)
    have "page_of (handleJsonResponse ev payload ''notification'' opts pg)
            = page_of (processJsonData ev payload opts (notifiedInOrder ev ns pg))"
      using True by (simp add: handleJsonResponse_def r processJsonData_run [OF rd])
    then show ?thesis
      using True n
      by (simp add: tw processJsonData_notifications [OF rd] notifiedInOrder_trace)
  next
    case False
    have n: "filter is_notification (map (notice ev) xs) = map (notice ev) xs" for xs
      by (induction xs) (simp_all add: notice_def)
    show ?thesis using False
      by (simp add: 1 showNotification_trace notifiedInOrder_trace n)
  qed
  have 4: "notice ev n
             = Notification (field ''message'' n)
                 (if truthy (field ''type'' n) then field ''type'' n else JStr ''info'')
                 (toastMechanism ev)" for n
    by (simp add: notice_def js_or_def)
  show ?thesis using 1 2 3 4 notice_default_info by blast
qed

theorem notifications_in_order_witness:
  "get_prop ''notifications'' twoNotices = Inr (JArr twoEntries)
   \<and> list_all readable twoEntries
   \<and> trace (notifiedInOrder plain_env twoEntries blank_page)
       = [Notification (JStr ''A'') (JStr ''info'') (FadeFallback 3000),
          Notification (JStr ''B'') (JStr ''warning'') (FadeFallback 3000)]
   \<and> handleJsonResponse plain_env twoNotices ''notification'' linkOptions blank_page
       = handleJsonResponse plain_env twoNotices ''default'' linkOptions
           (notifiedInOrder plain_env twoEntries blank_page)
   \<and> trace (page_of (handleJsonResponse plain_env twoNotices ''notification'' linkOptions blank_page))
       = [Notification (JStr ''A'') (JStr ''info'') (FadeFallback 3000),
          Notification (JStr ''B'') (JStr ''warning'') (FadeFallback 3000),
          JsonProcessed twoNotices]"
proof -
  have a: "get_prop ''notifications'' twoNotices = Inr (JArr twoEntries)"
    by (simp add: twoNotices_def)
  have b: "list_all readable twoEntries" by (simp add: twoEntries_def)
  note th = notifications_in_order [OF a, of plain_env linkOptions blank_page]
  have 1: "handleJsonResponse plain_env twoNotices ''notification'' linkOptions blank_page
       = handleJsonResponse plain_env twoNotices ''default'' linkOptions
           (notifiedInOrder plain_env twoEntries blank_page)"
    using th b by simp
  have tw: "takeWhile readable twoEntries = twoEntries" by (simp add: twoEntries_def)
  have "trace (notifiedInOrder plain_env twoEntries blank_page)
          = trace blank_page @ map (notice plain_env) twoEntries"
    using th unfolding tw by blast
  then have 2: "trace (notifiedInOrder plain_env twoEntries blank_page)
       = [Notification (JStr ''A'') (JStr ''info'') (FadeFallback 3000),
          Notification (JStr ''B'') (JStr ''warning'') (FadeFallback 3000)]"
    by (simp add: twoEntries_def notice_def field_def js_or_def toastMechanism_def plain_env_def
          blank_page_def)
  have 3: "trace (page_of (handleJsonResponse plain_env twoNotices ''notification'' linkOptions blank_page))
       = [Notification (JStr ''A'') (JStr ''info'') (FadeFallback 3000),
          Notification (JStr ''B'') (JStr ''warning'') (FadeFallback 3000),
          JsonProcessed twoNotices]"
    by (simp add: twoNotices_def twoEntries_def run_defs)
  show ?thesis using a b 1 2 3 by blast
qed

text \<open>
  C9 as stated fails on a sequence with an entry that cannot be read:
  \<^verbatim>\<open>{notifications: [null, {message: "B", type: "warning"}]}\<close> emits no notification for
  either entry. The only notification is the router's report of the TypeError, and the
  router returns \<^verbatim>\<open>false\<close>.
\<close>

theorem null_entry_counterexample:
  "get_prop ''notifications''
     (JObj [(''notifications'', JArr [JNull, JObj [(''message'', JStr ''B''), (''type'', JStr ''warning'')]])])
     = Inr (JArr [JNull, JObj [(''message'', JStr ''B''), (''type'', JStr ''warning'')]])
   \<and> handleJsonResponse plain_env
       (JObj [(''notifications'', JArr [JNull, JObj [(''message'', JStr ''B''), (''type'', JStr ''warning'')]])])
       ''notification'' linkOptions blank_page
     = Done False
         (showNotification plain_env (JStr ''Error processing server response'') (JStr ''error'') blank_page)
   \<and> trace (page_of (handleJsonResponse plain_env
       (JObj [(''notifications'', JArr [JNull, JObj [(''message'', JStr ''B''), (''type'', JStr ''warning'')]])])
       ''notification'' linkOptions blank_page))
     = [Notification (JStr ''Error processing server response'') (JStr ''error'') (FadeFallback 3000)]"
  by (simp add: run_defs)

section \<open>Request Dispatcher: the failure message\<close>

text \<open>
  C8, as amended. A failed JSON request emits one notification with severity \<^verbatim>\<open>error\<close>
  and then triggers the failure event. The message is the first 100 characters of the
  body followed by \<^verbatim>\<open>...\<close> when the body is not empty and does not parse; the parsed
  body's \<^verbatim>\<open>message\<close> when it parses and that field is truthy; \<^verbatim>\<open>Request failed\<close> when the
  body is empty or absent.
\<close>

theorem failure_message:
  "trace (sendJsonRequest_fail ev x textStatus er pg)
     = trace pg @ [Notification (errorMessage ev x) (JStr ''error'') (toastMechanism ev),
                   JsonRequestFailed (status x) textStatus er]
   \<and> (responseText x = Some body \<and> body \<noteq> [] \<and> JSON_parse ev body = None
        \<longrightarrow> errorMessage ev x = JStr (take 100 body @ ''...''))
   \<and> (responseText x = Some body \<and> body \<noteq> [] \<and> JSON_parse ev body = Some errorData
        \<and> get_prop ''message'' errorData = Inr m \<and> truthy m
        \<longrightarrow> errorMessage ev x = m)
   \<and> (responseText x = None \<or> responseText x = Some [] \<longrightarrow> errorMessage ev x = JStr ''Request failed'')"
  by (auto simp: sendJsonRequest_fail_def emit_def showNotification_trace errorMessage_def js_or_def)

theorem failure_message_witness:
  "responseText \<lparr>status = 502, responseText = Some (replicate 150 CHR ''x'')\<rparr> = Some (replicate 150 CHR ''x'')
   \<and> replicate 150 CHR ''x'' \<noteq> []
   \<and> JSON_parse plain_env (replicate 150 CHR ''x'') = None
   \<and> errorMessage plain_env \<lparr>status = 502, responseText = Some (replicate 150 CHR ''x'')\<rparr>
       = JStr (replicate 100 CHR ''x'' @ ''...'')
   \<and> trace (sendJsonRequest_fail plain_env \<lparr>status = 502, responseText = Some (replicate 150 CHR ''x'')\<rparr>
              ''error'' ''Bad Gateway'' blank_page)
       = [Notification (JStr (replicate 100 CHR ''x'' @ ''...'')) (JStr ''error'') (FadeFallback 3000),
          JsonRequestFailed 502 ''error'' ''Bad Gateway'']
   \<and> errorBody \<noteq> []
   \<and> JSON_parse parsing_env errorBody = Some (JObj [(''message'', JStr ''Email already registered'')])
   \<and> get_prop ''message'' (JObj [(''message'', JStr ''Email already registered'')])
       = Inr (JStr ''Email already registered'')
   \<and> truthy (JStr ''Email already registered'')
   \<and> errorMessage parsing_env \<lparr>status = 400, responseText = Some errorBody\<rparr>
       = JStr ''Email already registered''
   \<and> errorMessage plain_env \<lparr>status = 0, responseText = None\<rparr> = JStr ''Request failed''"
proof -
  have 1: "errorMessage plain_env \<lparr>status = 502, responseText = Some (replicate 150 CHR ''x'')\<rparr>
       = JStr (replicate 100 CHR ''x'' @ ''...'')
     \<and> trace (sendJsonRequest_fail plain_env \<lparr>status = 502, responseText = Some (replicate 150 CHR ''x'')\<rparr>
              ''error'' ''Bad Gateway'' blank_page)
       = [Notification (JStr (replicate 100 CHR ''x'' @ ''...'')) (JStr ''error'') (FadeFallback 3000),
          JsonRequestFailed 502 ''error'' ''Bad Gateway'']"
    using failure_message [of plain_env "\<lparr>status = 502, responseText = Some (replicate 150 CHR ''x'')\<rparr>"
        "''error''" "''Bad Gateway''" blank_page "replicate 150 CHR ''x''" JNull JNull]
    by (simp add: plain_env_def blank_page_def toastMechanism_def)
  have 2: "errorMessage parsing_env \<lparr>status = 400, responseText = Some errorBody\<rparr>
       = JStr ''Email already registered''"
    using failure_message [of parsing_env "\<lparr>status = 400, responseText = Some errorBody\<rparr>"
        "''error''" "''Bad Request''" blank_page errorBody
        "JObj [(''message'', JStr ''Email already registered'')]" "JStr ''Email already registered''"]
    by (simp add: parsing_env_def errorBody_def)
  have 3: "errorMessage plain_env \<lparr>status = 0, responseText = None\<rparr> = JStr ''Request failed''"
    using failure_message [of plain_env "\<lparr>status = 0, responseText = None\<rparr>"
        "''error''" "[]" blank_page "[]" JNull JNull]
    by simp
  show ?thesis using 1 2 3 by (simp add: plain_env_def parsing_env_def errorBody_def)
qed

text \<open>
  C8 as stated fails for an empty error body: it does not parse as JSON, and the
  message is \<^verbatim>\<open>Request failed\<close>, not the excerpt followed by \<^verbatim>\<open>...\<close>.
\<close>

theorem empty_error_body_counterexample:
  "JSON_parse plain_env [] = None
   \<and> errorMessage plain_env \<lparr>status = 500, responseText = Some []\<rparr> = JStr ''Request failed''
   \<and> errorMessage plain_env \<lparr>status = 500, responseText = Some []\<rparr> \<noteq> JStr (take 100 [] @ ''...'')
   \<and> trace (sendJsonRequest_fail plain_env \<lparr>status = 500, responseText = Some []\<rparr>
              ''error'' ''Internal Server Error'' blank_page)
       = [Notification (JStr ''Request failed'') (JStr ''error'') (FadeFallback 3000),
          JsonRequestFailed 500 ''error'' ''Internal Server Error'']"
  by (simp add: run_defs)

section \<open>Form errors\<close>






text \<open>
  Other field names and messages. The field \<^verbatim>\<open>a"b\<close> makes a selector that jQuery
  refuses: the loop throws on it, no later field is marked, and the router reports the
  failure. A field that carries a selector of its own marks what that selector finds,
  in any form. A message with markup of its own is inserted as the fragment jQuery
  parses from it, which need not be one element.
\<close>

lemma quoted_field_throws:
  "handleJsonResponse ev
     (JObj [(''form_errors'', JObj [(''a'' @ [CHR 0x22] @ ''b'', JStr ''Bad''), (''email'', JStr ''Invalid email'')])])
     ''form'' formOptions demo_page
   = Done False
       (showNotification ev (JStr ''Error processing server response'') (JStr ''error'')
          (demo_page\<lparr>dom := clearErrors (dom demo_page)\<rparr>))"
  by (simp add: handleJsonResponse_def route_def processFormResponse_def displayFormErrors_def
        andThen_def read_def showFieldErrorIn_def selectable_def rejected_def)

lemma injected_selector_reaches_other_form:
  "jq (has_tag ''form'')
     (dom (page_of (displayFormErrors injecting_env (JObj [(injectedField, JStr ''Bad'')])
             (formSelector formOptions) demo_page)))
   = [Elem ''form'' (Some ''contact'') None [''data-json-form''] []
        [Elem ''input'' None (Some ''email'') [] [''is-invalid''] [],
         Elem ''div'' None None [] [''error-message'', ''text-danger''] [Text ''Bad''],
         Elem ''input'' None (Some ''phone'') [] [] []],
      Elem ''form'' (Some ''newsletter'') None [] []
        [Elem ''input'' None (Some ''address'') [] [''is-invalid''] [],
         Elem ''div'' None None [] [''error-message'', ''text-danger''] [Text ''Bad'']]]"
  by (simp add: run_defs injecting_env_def injectedField_def)

lemma markup_message_inserted_unparsed:
  "jq (has_id ''contact'')
     (dom (page_of (displayFormErrors plain_env (JObj [(''email'', JStr ''<b>Invalid</b>'')])
             (formSelector formOptions) demo_page)))
   = [Elem ''form'' (Some ''contact'') None [''data-json-form''] []
        [Elem ''input'' None (Some ''email'') [] [''is-invalid''] [],
         Raw (JStr (''<div class='' @ [CHR 0x22] @ ''error-message text-danger'' @ [CHR 0x22]
                    @ ''><b>Invalid</b></div>'')),
         Elem ''input'' None (Some ''phone'') [] [] []]]"
  by (simp add: run_defs)

section \<open>Response Cache\<close>

text \<open>
  C4. A link to \<^verbatim>\<open>/about/\<close> is hovered, the server answers 200 with an empty body, and
  the success callback stores it: the cache has an entry for the URL. The entry is the
  empty string, which the guard \<^verbatim>\<open>!ajaxCache[url]\<close> takes for no entry: hovering again
  sends a second request, and so does a click.
\<close>

theorem empty_body_fetched_again:
  "ajaxCache (page_of (complete plain_env (HoverSuccess about_link (JStr []))
                  (onHover about_link demo_page))) ''/about/'' = Some (JStr [])
   \<and> trace (onHover about_link
              (page_of (complete plain_env (HoverSuccess about_link (JStr []))
                  (onHover about_link demo_page))))
       = [AjaxSent ''/about/'' ''GET'' ''html'', AjaxSent ''/about/'' ''GET'' ''html'']
   \<and> trace (page_of (onClick plain_env about_link
              (page_of (complete plain_env (HoverSuccess about_link (JStr []))
                  (onHover about_link demo_page)))))
       = [AjaxSent ''/about/'' ''GET'' ''html'', AjaxSent ''/about/'' ''GET'' ''html'']"
  by (simp add: run_defs)

end
